theory Spec2Isabelle
  imports Complex_Main "HOL-Library.Word"
begin

unbundle bit_operations_syntax

section \<open>Machine types\<close>

type_synonym u8 = "8 word"
type_synonym u16 = "16 word"
type_synonym u32 = "32 word"

section \<open>Pixel format decoder (PVR guide, "Converting Between Color Formats")\<close>

text \<open>
  The C converters take a \<open>uint16_t\<close> and fill \<open>output[0..3]\<close> with R, G, B, A.
  Each channel expression is computed after integer promotion (here on 32 bits) and
  stored into a \<open>uint8_t\<close>, which truncates; the low-bit fill \<open>v |= v >> k\<close> then
  works on the stored 8-bit value. The output array is the 4-tuple (r, g, b, a).
\<close>

type_synonym rgba = "u8 \<times> u8 \<times> u8 \<times> u8"

definition channel :: "u16 \<Rightarrow> nat \<Rightarrow> u32 \<Rightarrow> nat \<Rightarrow> u8" where
  "channel input sh msk up = ucast (push_bit up (drop_bit sh (ucast input :: u32) AND msk))"

definition fill_low :: "u8 \<Rightarrow> nat \<Rightarrow> u8" where
  "fill_low v k = v OR drop_bit k v"

definition argb1555_to_rgba8888 :: "u16 \<Rightarrow> rgba" where
  "argb1555_to_rgba8888 input =
     (let a = (if input AND 0x8000 \<noteq> 0 then 0xFF else 0x00);
          r = channel input 10 0x1F 3;
          g = channel input 5 0x1F 3;
          b = channel input 0 0x1F 3;
          r = fill_low r 5;
          g = fill_low g 5;
          b = fill_low b 5
      in (r, g, b, a))"

definition rgb565_to_rgba8888 :: "u16 \<Rightarrow> rgba" where
  "rgb565_to_rgba8888 input =
     (let r = channel input 11 0x1F 3;
          g = channel input 5 0x3F 2;
          b = channel input 0 0x1F 3;
          r = fill_low r 5;
          g = fill_low g 6;
          b = fill_low b 5
      in (r, g, b, 0xFF))"

definition argb4444_to_rgba8888 :: "u16 \<Rightarrow> rgba" where
  "argb4444_to_rgba8888 input =
     (let a = channel input 12 0xF 4;
          r = channel input 8 0xF 4;
          g = channel input 4 0xF 4;
          b = channel input 0 0xF 4;
          a = fill_low a 4;
          r = fill_low r 4;
          g = fill_low g 4;
          b = fill_low b 4
      in (r, g, b, a))"

text \<open>
  The \<open>n\<close>-bit field of a 16-bit pixel that starts at bit \<open>sh\<close>, and what it means for
  an 8-bit channel \<open>c\<close> to be that field widened by replication: the top \<open>n\<close> bits
  of \<open>c\<close> are the field, and the remaining low \<open>8 - n\<close> bits of \<open>c\<close> repeat the top
  \<open>8 - n\<close> bits of \<open>c\<close>.
\<close>

definition pixel_field :: "u16 \<Rightarrow> nat \<Rightarrow> nat \<Rightarrow> u8" where
  "pixel_field input sh n = ucast (take_bit n (drop_bit sh input))"

definition replicated :: "nat \<Rightarrow> u8 \<Rightarrow> u8 \<Rightarrow> bool" where
  "replicated n v c \<longleftrightarrow> drop_bit (8 - n) c = v \<and> take_bit (8 - n) c = drop_bit n c"

section \<open>Morton index mapper (PVR guide, \<open>toMorton\<close> and \<open>untwiddle\<close>)\<close>

text \<open>
  \<^verbatim>\<open>morton |= ((x & (1 << i)) << i) | ((y & (1 << i)) << (i + 1));\<close> for \<open>i\<close> from 0 to 15.
  The operands are promoted from \<open>uint16_t\<close> to a 32-bit integer; the shifts are taken
  on 32 bits (the last one, \<open>0x8000 << 16\<close>, lands on bit 31) and the result is or-ed
  into the \<open>uint32_t\<close> accumulator. \<open>morton_step\<close> is one iteration of the loop body.
\<close>

definition morton_step :: "u16 \<Rightarrow> u16 \<Rightarrow> nat \<Rightarrow> u32 \<Rightarrow> u32" where
  "morton_step x y i morton =
     morton OR (push_bit i (ucast x AND push_bit i 1) OR push_bit (i + 1) (ucast y AND push_bit i 1))"

definition toMorton :: "u16 \<Rightarrow> u16 \<Rightarrow> u32" where
  "toMorton x y = fold (morton_step x y) [0..<16] 0"

text \<open>The guide's \<open>untwiddle\<close> has the same body as \<open>toMorton\<close>.\<close>

definition untwiddle :: "u16 \<Rightarrow> u16 \<Rightarrow> u32" where
  "untwiddle x y = fold (morton_step x y) [0..<16] 0"

text \<open>
  Modelled from the spec: \<open>from_morton\<close>, which no source file defines. The spec
  (section 4.2) calls it the exact inverse of \<open>to_morton\<close>, with x in the even bit
  positions and y in the odd ones: bit \<open>i\<close> of x is bit \<open>2i\<close> of the index, bit \<open>i\<close>
  of y is bit \<open>2i + 1\<close>, for the 16 bits of each coordinate.
\<close>

definition from_morton_step :: "u32 \<Rightarrow> nat \<Rightarrow> u16 \<times> u16 \<Rightarrow> u16 \<times> u16" where
  "from_morton_step m i = (\<lambda>(x, y).
     (x OR push_bit i (ucast (drop_bit (2 * i) m AND 1)),
      y OR push_bit i (ucast (drop_bit (2 * i + 1) m AND 1))))"

definition from_morton :: "u32 \<Rightarrow> u16 \<times> u16" where
  "from_morton m = fold (from_morton_step m) [0..<16] (0, 0)"

section \<open>Twiddled texture decode (PVR guide, \<open>decode_twiddled_texture\<close>)\<close>

text \<open>
  The C function returns \<open>void\<close> and has no error path of its own. The only way it
  can go wrong is an access outside \<open>src\<close> or \<open>dst\<close>, which C leaves undefined;
  the model makes that the fault \<open>OutOfBounds\<close>, the two arrays being lists.
\<close>

datatype c_fault = OutOfBounds

text \<open>
  Arithmetic on C's \<open>int\<close>: the mathematical result reduced to 32 bits, two's
  complement. (Signed overflow is undefined in C; the theorems below assume
  \<open>width * height\<close> fits, so nothing depends on this choice.)
\<close>

definition int32 :: "int \<Rightarrow> int" where
  "int32 i = sint (word_of_int i :: u32)"

text \<open>A counted \<open>for\<close> loop whose body may fault: the first fault ends the loop.\<close>

primrec for_loop :: "nat list \<Rightarrow> (nat \<Rightarrow> 's \<Rightarrow> 'e + 's) \<Rightarrow> 's \<Rightarrow> 'e + 's" where
  "for_loop [] body s = Inr s"
| "for_loop (i # is) body s =
     (case body i s of Inl e \<Rightarrow> Inl e | Inr s' \<Rightarrow> for_loop is body s')"

text \<open>\<^verbatim>\<open>(rgba[3] << 24) | (rgba[0] << 16) | (rgba[1] << 8) | rgba[2]\<close>, stored as \<open>uint32_t\<close>.\<close>

definition pack_argb :: "rgba \<Rightarrow> u32" where
  "pack_argb = (\<lambda>(r, g, b, a).
     push_bit 24 (ucast a) OR push_bit 16 (ucast r) OR push_bit 8 (ucast g) OR ucast b)"

text \<open>
  The body of the inner loop, for one output coordinate. \<open>untwiddle\<close> takes
  \<open>uint16_t\<close> arguments, so the \<open>int\<close> loop counters are truncated to 16 bits; its
  \<open>uint32_t\<close> result is stored in an \<open>int\<close> (\<open>sint\<close>). The guard
  \<open>morton_idx < width * height\<close> skips the pixel when it fails: there is no else branch.
\<close>

definition twiddled_pixel :: "u16 list \<Rightarrow> int \<Rightarrow> int \<Rightarrow> nat \<Rightarrow> nat \<Rightarrow> u32 list \<Rightarrow> c_fault + u32 list" where
  "twiddled_pixel src width height y x dst =
     (let morton_idx = sint (untwiddle (of_nat x) (of_nat y)) in
      if morton_idx < int32 (width * height) then
        if morton_idx < 0 \<or> int (length src) \<le> morton_idx then Inl OutOfBounds
        else
          let color = src ! nat morton_idx;
              rgba = argb1555_to_rgba8888 color;
              i = int32 (int32 (int y * width) + int x)
          in if i < 0 \<or> int (length dst) \<le> i then Inl OutOfBounds
             else Inr (dst[nat i := pack_argb rgba])
      else Inr dst)"

definition decode_twiddled_texture :: "u16 list \<Rightarrow> u32 list \<Rightarrow> int \<Rightarrow> int \<Rightarrow> c_fault + u32 list" where
  "decode_twiddled_texture src dst width height =
     for_loop [0..<nat height]
       (\<lambda>y. for_loop [0..<nat width] (\<lambda>x. twiddled_pixel src width height y x)) dst"


text \<open>
  What the decode leaves at destination index \<open>i\<close>, and the destination array after the
  first \<open>k\<close> output coordinates (in row-major order) have been handled.
\<close>

definition twiddled_expected :: "u16 list \<Rightarrow> nat \<Rightarrow> nat \<Rightarrow> u32 list \<Rightarrow> nat \<Rightarrow> u32" where
  "twiddled_expected src w h dst i =
     (let m = unat (untwiddle (of_nat (i mod w)) (of_nat (i div w)))
      in if m < w * h then pack_argb (argb1555_to_rgba8888 (src ! m)) else dst ! i)"

definition twiddled_after :: "u16 list \<Rightarrow> nat \<Rightarrow> nat \<Rightarrow> u32 list \<Rightarrow> nat \<Rightarrow> u32 list" where
  "twiddled_after src w h dst k =
     map (\<lambda>i. if i < k then twiddled_expected src w h dst i else dst ! i) [0..<length dst]"

section \<open>SMALLVQ codebook size (PVR guide, "Special Cases and Limitations")\<close>

text \<open>
  Modelled from the spec: the codebook entry count of the VQ decompressor, which no
  source file computes (the guide only lists the sizes in prose, the decoder itself is
  in a library that is not part of the sources). Spec section 4.4: "Codebook size policy
  when small (SMALLVQ variants) is set: width/height \<le> 16 \<rightarrow> 16 entries; \<le> 32 \<rightarrow> 32
  entries; \<le> 64 \<rightarrow> 128 entries; otherwise 256 entries. Non-small VQ always uses 256
  entries." A texture counts as "\<le> n" when both its width and its height are.
\<close>

definition codebook_size :: "bool \<Rightarrow> nat \<Rightarrow> nat \<Rightarrow> nat" where
  "codebook_size small width height =
     (if small then
        if width \<le> 16 \<and> height \<le> 16 then 16
        else if width \<le> 32 \<and> height \<le> 32 then 32
        else if width \<le> 64 \<and> height \<le> 64 then 128
        else 256
      else 256)"

section \<open>PVM header parser (PVM guide, \<open>parse_pvm_header\<close>)\<close>

text \<open>
  The Python function reads the file front to back. \<open>f.read(n)\<close> returns the next
  \<open>n\<close> bytes, or fewer at the end of the file, and never fails; \<open>struct.unpack\<close>
  raises \<open>struct.error\<close> when it is given the wrong number of bytes; a wrong magic
  raises \<open>ValueError\<close>; \<open>bytes.decode\<close> raises \<open>UnicodeDecodeError\<close> on bytes that are
  not UTF-8. The file is the list of bytes still to be read. Python integers are
  unbounded: \<open>int\<close>. The formats \<open>H\<close>, \<open>HH\<close> and \<open>I\<close> are read in the byte order of the
  machine, little-endian as for every layout of these formats.
\<close>

datatype py_error = ValueError | StructError | UnicodeDecodeError

definition f_read :: "nat \<Rightarrow> u8 list \<Rightarrow> u8 list \<times> u8 list" where
  "f_read n f = (take n f, drop n f)"

definition le_int :: "u8 list \<Rightarrow> int" where
  "le_int bs = foldr (\<lambda>b acc. uint b + 256 * acc) bs 0"

definition unpack_H :: "u8 list \<Rightarrow> py_error + int" where
  "unpack_H bs = (if length bs = 2 then Inr (le_int bs) else Inl StructError)"

definition unpack_I :: "u8 list \<Rightarrow> py_error + int" where
  "unpack_I bs = (if length bs = 4 then Inr (le_int bs) else Inl StructError)"

definition unpack_HH :: "u8 list \<Rightarrow> py_error + int \<times> int" where
  "unpack_HH bs =
     (if length bs = 4 then Inr (le_int (take 2 bs), le_int (drop 2 bs)) else Inl StructError)"

text \<open>
  A texture is a dictionary with the key \<open>index\<close> (field \<open>tex_index\<close>) and five optional keys. The name is
  kept as the code points of the decoded string. Python's UTF-8 codec is a parameter
  \<open>decode\<close> of the parser: the code points of a byte string, or \<open>None\<close> where it raises.
\<close>

record texture =
  tex_index :: int
  tex_name :: "nat list option"
  tex_format :: "int option"
  tex_width :: "int option"
  tex_height :: "int option"
  tex_global_index :: "int option"

text \<open>Lines 179 and 180: the two shifts that decode the size field.\<close>

definition size_width :: "int \<Rightarrow> int" where
  "size_width sz = push_bit (nat ((sz AND 0x0f) + 2)) 1"

definition size_height :: "int \<Rightarrow> int" where
  "size_height sz = push_bit (nat ((drop_bit 4 sz AND 0x0f) + 2)) 1"

text \<open>The four conditional fields of one entry, each a step on (texture, rest of file).\<close>

definition read_name :: "(u8 list \<Rightarrow> nat list option) \<Rightarrow> int \<Rightarrow> texture \<times> u8 list \<Rightarrow> py_error + texture \<times> u8 list" where
  "read_name decode flags = (\<lambda>(t, f).
     if flags AND 0x08 \<noteq> 0 then
       (let (name_bytes, f) = f_read 28 f in
        case decode name_bytes of
          None \<Rightarrow> Inl UnicodeDecodeError
        | Some cs \<Rightarrow> Inr (t\<lparr>tex_name := Some (filter (\<lambda>c. c \<noteq> 0) cs)\<rparr>, f))
     else Inr (t, f))"

definition read_format :: "int \<Rightarrow> texture \<times> u8 list \<Rightarrow> py_error + texture \<times> u8 list" where
  "read_format flags = (\<lambda>(t, f).
     if flags AND 0x04 \<noteq> 0 then
       (let (bs, f) = f_read 2 f in
        case unpack_H bs of
          Inl e \<Rightarrow> Inl e
        | Inr format_value \<Rightarrow> Inr (t\<lparr>tex_format := Some (drop_bit 8 format_value)\<rparr>, f))
     else Inr (t, f))"

definition read_size :: "int \<Rightarrow> texture \<times> u8 list \<Rightarrow> py_error + texture \<times> u8 list" where
  "read_size flags = (\<lambda>(t, f).
     if flags AND 0x02 \<noteq> 0 then
       (let (bs, f) = f_read 2 f in
        case unpack_H bs of
          Inl e \<Rightarrow> Inl e
        | Inr sz \<Rightarrow>
            Inr (t\<lparr>tex_width := Some (size_width sz), tex_height := Some (size_height sz)\<rparr>, f))
     else Inr (t, f))"

definition read_global_index :: "int \<Rightarrow> texture \<times> u8 list \<Rightarrow> py_error + texture \<times> u8 list" where
  "read_global_index flags = (\<lambda>(t, f).
     if flags AND 0x01 \<noteq> 0 then
       (let (bs, f) = f_read 4 f in
        case unpack_I bs of
          Inl e \<Rightarrow> Inl e
        | Inr g \<Rightarrow> Inr (t\<lparr>tex_global_index := Some g\<rparr>, f))
     else Inr (t, f))"

definition py_bind :: "py_error + 'a \<Rightarrow> ('a \<Rightarrow> py_error + 'b) \<Rightarrow> py_error + 'b" where
  "py_bind r k = (case r of Inl e \<Rightarrow> Inl e | Inr v \<Rightarrow> k v)"

text \<open>One iteration of the loop over \<open>range(tex_count)\<close>.\<close>

definition parse_texture :: "(u8 list \<Rightarrow> nat list option) \<Rightarrow> int \<Rightarrow> u8 list \<Rightarrow> py_error + texture \<times> u8 list" where
  "parse_texture decode flags f =
     (let (bs, f) = f_read 2 f in
      py_bind (unpack_H bs) (\<lambda>index.
      py_bind (read_name decode flags
        (\<lparr>tex_index = index, tex_name = None, tex_format = None, tex_width = None,
          tex_height = None, tex_global_index = None\<rparr>, f)) (\<lambda>tf.
      py_bind (read_format flags tf) (\<lambda>tf.
      py_bind (read_size flags tf) (\<lambda>tf.
      read_global_index flags tf)))))"

fun parse_textures :: "(u8 list \<Rightarrow> nat list option) \<Rightarrow> int \<Rightarrow> nat \<Rightarrow> u8 list \<Rightarrow> py_error + texture list" where
  "parse_textures decode flags 0 f = Inr []"
| "parse_textures decode flags (Suc n) f =
     py_bind (parse_texture decode flags f) (\<lambda>(t, f).
     py_bind (parse_textures decode flags n f) (\<lambda>ts. Inr (t # ts)))"

record pvm_header =
  header_size :: int
  pvm_flags :: int
  texture_count :: int
  textures :: "texture list"

definition parse_pvm_header :: "(u8 list \<Rightarrow> nat list option) \<Rightarrow> u8 list \<Rightarrow> py_error + pvm_header" where
  "parse_pvm_header decode f =
     (let (magic, f) = f_read 4 f in
      if magic \<noteq> [0x50, 0x56, 0x4D, 0x48] then Inl ValueError
      else
        let (bs, f) = f_read 4 f in
        py_bind (unpack_I bs) (\<lambda>header_size.
        let (bs, f) = f_read 4 f in
        py_bind (unpack_HH bs) (\<lambda>(flags, tex_count).
        py_bind (parse_textures decode flags (nat tex_count) f) (\<lambda>textures.
        Inr \<lparr>header_size = header_size, pvm_flags = flags, texture_count = tex_count,
             textures = textures\<rparr>))))"

text \<open>
  The byte offset of the size field inside an entry: after the index, the name (when
  flag \<open>0x08\<close> is set) and the format (when flag \<open>0x04\<close> is set).
\<close>

definition size_field_offset :: "int \<Rightarrow> nat" where
  "size_field_offset flags =
     2 + (if flags AND 0x08 \<noteq> 0 then 28 else 0) + (if flags AND 0x04 \<noteq> 0 then 2 else 0)"

text \<open>A stand-in for the codec on ASCII input, for evaluating examples.\<close>

definition ascii_decode :: "u8 list \<Rightarrow> nat list option" where
  "ascii_decode bs = (if \<forall>b \<in> set bs. b < 0x80 then Some (map unat bs) else None)"

section \<open>NJ model reader: the byte reader\<close>

text \<open>
  The error kinds of the NJ reader. A read or seek beyond the buffer is
  \<open>TruncatedInput\<close>; \<open>MeshDataError\<close> stands for any failure of \<open>readMeshData\<close>, whose
  body the guide does not show; \<open>CyclicReference\<close> is the error the specification names
  for a revisited bone offset.
\<close>

datatype nj_error = TruncatedInput | MeshDataError | CyclicReference

definition nj_bind :: "nj_error + 'a \<Rightarrow> ('a \<Rightarrow> nj_error + 'b) \<Rightarrow> nj_error + 'b" where
  "nj_bind r k = (case r of Inl e \<Rightarrow> Inl e | Inr v \<Rightarrow> k v)"

text \<open>
  Modelled from the spec: the \<open>ByteReader\<close> class (\<open>tell\<close>, \<open>seek\<close>, \<open>readUInt8\<close>,
  \<open>readUInt32\<close>), which the guide uses and no source file defines. Spec sections 6 and 7:
  all integers are little-endian, and a read or seek that would exceed the buffer is
  \<open>TruncatedInput\<close>. The reader is the immutable buffer and a cursor; \<open>tell\<close> is the
  cursor. A float or a signed integer is kept as the 32 bits read.
\<close>

definition u32_at :: "u8 list \<Rightarrow> nat \<Rightarrow> u32" where
  "u32_at buf p =
     ucast (buf ! p) OR push_bit 8 (ucast (buf ! (p + 1))) OR
     push_bit 16 (ucast (buf ! (p + 2))) OR push_bit 24 (ucast (buf ! (p + 3)))"

definition readUInt8 :: "u8 list \<Rightarrow> nat \<Rightarrow> nj_error + u8 \<times> nat" where
  "readUInt8 buf p = (if p + 1 \<le> length buf then Inr (buf ! p, p + 1) else Inl TruncatedInput)"

definition readUInt32 :: "u8 list \<Rightarrow> nat \<Rightarrow> nj_error + u32 \<times> nat" where
  "readUInt32 buf p = (if p + 4 \<le> length buf then Inr (u32_at buf p, p + 4) else Inl TruncatedInput)"

definition seek :: "u8 list \<Rightarrow> nat \<Rightarrow> nj_error + nat" where
  "seek buf target = (if target \<le> length buf then Inr target else Inl TruncatedInput)"

text \<open>
  Modelled from the spec: \<open>readVector3\<close>, \<open>readRotation\<close> and \<open>isBitFlagSet\<close>, helpers of
  \<open>readBone\<close> that no source file defines. Spec section 4.8: position and scale are
  three float32 each, rotation is three int32 whose axis order a flag bit selects, and
  flag bits suppress position, rotation and scale.
\<close>

type_synonym vec3 = "u32 \<times> u32 \<times> u32"
type_synonym euler = "u32 \<times> u32 \<times> u32 \<times> bool"

definition readVector3 :: "u8 list \<Rightarrow> nat \<Rightarrow> nj_error + vec3 \<times> nat" where
  "readVector3 buf p =
     nj_bind (readUInt32 buf p) (\<lambda>(x, p).
     nj_bind (readUInt32 buf p) (\<lambda>(y, p).
     nj_bind (readUInt32 buf p) (\<lambda>(z, p). Inr ((x, y, z), p))))"

definition readRotation :: "bool \<Rightarrow> u8 list \<Rightarrow> nat \<Rightarrow> nj_error + euler \<times> nat" where
  "readRotation zxy buf p =
     nj_bind (readUInt32 buf p) (\<lambda>(x, p).
     nj_bind (readUInt32 buf p) (\<lambda>(y, p).
     nj_bind (readUInt32 buf p) (\<lambda>(z, p). Inr ((x, y, z, zxy), p))))"

definition isBitFlagSet :: "u32 \<Rightarrow> nat \<Rightarrow> bool" where
  "isBitFlagSet flags n = bit flags n"

section \<open>NJ model reader: \<open>readBone\<close> (NJ guide)\<close>

text \<open>The locals that the first statements of \<open>readBone\<close> read from the stream.\<close>

record bone_fields =
  boneOffset :: nat
  bone_flags :: u32
  chunkOfs :: u32
  position :: vec3
  rotation :: euler
  scale :: vec3
  childOfs :: u32
  siblingOfs :: u32

definition read_bone_fields :: "u8 list \<Rightarrow> nat \<Rightarrow> nj_error + bone_fields \<times> nat" where
  "read_bone_fields buf p =
     (let boneOffset = p in
      nj_bind (readUInt32 buf p) (\<lambda>(flags, p).
      nj_bind (readUInt32 buf p) (\<lambda>(chunkOfs, p).
      nj_bind (readVector3 buf p) (\<lambda>(position, p).
      nj_bind (readRotation (isBitFlagSet flags 5) buf p) (\<lambda>(rotation, p).
      nj_bind (readVector3 buf p) (\<lambda>(scale, p).
      nj_bind (readUInt32 buf p) (\<lambda>(childOfs, p).
      nj_bind (readUInt32 buf p) (\<lambda>(siblingOfs, p).
      Inr (\<lparr>boneOffset = boneOffset, bone_flags = flags, chunkOfs = chunkOfs,
            position = position, rotation = rotation, scale = scale,
            childOfs = childOfs, siblingOfs = siblingOfs\<rparr>, p)))))))))"

text \<open>
  A \<open>Bone\<close>. A transform field is \<open>Some v\<close> when \<open>readBone\<close> copied \<open>v\<close> into it and
  \<open>None\<close> when it was left as \<open>new Bone()\<close> made it. Bones live in the list of the
  bones created so far, in creation order; \<open>parentBone.add(bone)\<close> records the parent's
  index in the child.
\<close>

record bone =
  bone_position :: "vec3 option"
  bone_rotation :: "euler option"
  bone_scale :: "vec3 option"
  bone_parent :: "nat option"

definition new_bone :: "bone_fields \<Rightarrow> nat option \<Rightarrow> bone" where
  "new_bone f parentBone =
     \<lparr>bone_position = (if \<not> isBitFlagSet (bone_flags f) 0 then Some (position f) else None),
      bone_rotation = (if \<not> isBitFlagSet (bone_flags f) 1 then Some (rotation f) else None),
      bone_scale = (if \<not> isBitFlagSet (bone_flags f) 2 then Some (scale f) else None),
      bone_parent = parentBone\<rparr>"

record nj_state =
  pos :: nat
  bones :: "bone list"

text \<open>
  \<open>if (chunkOfs) { reader.seek(chunkOfs); readMeshData(); }\<close>. The body of
  \<open>readMeshData\<close> is not in the sources: it is a parameter that takes the buffer and the
  cursor and gives the cursor it leaves, or \<open>None\<close> when it fails.
\<close>

definition read_mesh :: "(u8 list \<Rightarrow> nat \<Rightarrow> nat option) \<Rightarrow> u8 list \<Rightarrow> u32 \<Rightarrow> nj_state \<Rightarrow> nj_error + nj_state" where
  "read_mesh readMeshData buf ofs s =
     (if ofs \<noteq> 0 then
        nj_bind (seek buf (unat ofs)) (\<lambda>p.
          case readMeshData buf p of
            None \<Rightarrow> Inl MeshDataError
          | Some p \<Rightarrow> Inr (s\<lparr>pos := p\<rparr>))
      else Inr s)"

text \<open>
  \<open>readBone\<close> follows the child and sibling offsets by recursion, with nothing that
  bounds it: it is a partial function, and \<open>None\<close> is the call that never returns (in a
  JavaScript engine, the recursion that runs until the call stack is exhausted).
\<close>

partial_function (option) readBone ::
  "(u8 list \<Rightarrow> nat \<Rightarrow> nat option) \<Rightarrow> u8 list \<Rightarrow> nat option \<Rightarrow> nj_state \<Rightarrow> (nj_error + nj_state) option"
where
  "readBone readMeshData buf parentBone s =
     (case read_bone_fields buf (pos s) of
        Inl e \<Rightarrow> Some (Inl e)
      | Inr (f, p) \<Rightarrow>
          (let bone = length (bones s);
               s = \<lparr>pos = p, bones = bones s @ [new_bone f parentBone]\<rparr>
           in case read_mesh readMeshData buf (chunkOfs f) s of
                Inl e \<Rightarrow> Some (Inl e)
              | Inr s \<Rightarrow>
                  Option.bind
                    (if childOfs f \<noteq> 0 then
                       (case seek buf (unat (childOfs f)) of
                          Inl e \<Rightarrow> Some (Inl e)
                        | Inr p \<Rightarrow> readBone readMeshData buf (Some bone) (s\<lparr>pos := p\<rparr>))
                     else Some (Inr s))
                    (\<lambda>r. case r of
                       Inl e \<Rightarrow> Some (Inl e)
                     | Inr s \<Rightarrow>
                         if siblingOfs f \<noteq> 0 then
                           (case seek buf (unat (siblingOfs f)) of
                              Inl e \<Rightarrow> Some (Inl e)
                            | Inr p \<Rightarrow> readBone readMeshData buf parentBone (s\<lparr>pos := p\<rparr>))
                         else Some (Inr s))))"

declare readBone.simps [code]

definition no_mesh :: "u8 list \<Rightarrow> nat \<Rightarrow> nat option" where
  "no_mesh buf p = Some p"

text \<open>
  The fixed layout of a bone record at offset \<open>p\<close>: fourteen 32-bit fields, 52 bytes.
\<close>

definition fields_at :: "u8 list \<Rightarrow> nat \<Rightarrow> bone_fields" where
  "fields_at buf p =
     \<lparr>boneOffset = p, bone_flags = u32_at buf p, chunkOfs = u32_at buf (p + 4),
      position = (u32_at buf (p + 8), u32_at buf (p + 12), u32_at buf (p + 16)),
      rotation = (u32_at buf (p + 20), u32_at buf (p + 24), u32_at buf (p + 28),
                  bit (u32_at buf p) 5),
      scale = (u32_at buf (p + 32), u32_at buf (p + 36), u32_at buf (p + 40)),
      childOfs = u32_at buf (p + 44), siblingOfs = u32_at buf (p + 48)\<rparr>"

text \<open>
  The mesh step of a bone succeeds: there is no chunk offset, or the seek to it is
  inside the buffer and \<open>readMeshData\<close> does not fail there.
\<close>

definition mesh_reads :: "(u8 list \<Rightarrow> nat \<Rightarrow> nat option) \<Rightarrow> u8 list \<Rightarrow> u32 \<Rightarrow> bool" where
  "mesh_reads readMeshData buf ofs \<longleftrightarrow>
     ofs = 0 \<or> unat ofs \<le> length buf \<and> readMeshData buf (unat ofs) \<noteq> None"

text \<open>
  The bone at offset \<open>p\<close> is read to the end: its record is complete, its mesh step
  succeeds, and what its child offset and then its sibling offset lead to is read to the
  end as well. An offset leads to nothing when it is 0, and to the bone at that offset
  otherwise.
\<close>

inductive bone_returns :: "(u8 list \<Rightarrow> nat \<Rightarrow> nat option) \<Rightarrow> u8 list \<Rightarrow> nat \<Rightarrow> bool"
  and link_returns :: "(u8 list \<Rightarrow> nat \<Rightarrow> nat option) \<Rightarrow> u8 list \<Rightarrow> u32 \<Rightarrow> bool"
  for readMeshData :: "u8 list \<Rightarrow> nat \<Rightarrow> nat option" and buf :: "u8 list"
where
  bone: "p + 52 \<le> length buf \<Longrightarrow>
     mesh_reads readMeshData buf (chunkOfs (fields_at buf p)) \<Longrightarrow>
     link_returns readMeshData buf (childOfs (fields_at buf p)) \<Longrightarrow>
     link_returns readMeshData buf (siblingOfs (fields_at buf p)) \<Longrightarrow>
     bone_returns readMeshData buf p"
| no_link: "link_returns readMeshData buf 0"
| link: "ofs \<noteq> 0 \<Longrightarrow> bone_returns readMeshData buf (unat ofs) \<Longrightarrow>
     link_returns readMeshData buf ofs"

code_pred bone_returns .

text \<open>
  A cycle of bone offsets. At each offset of the list \<open>cyc\<close> there is a complete bone
  record whose mesh step succeeds, and the read of that bone enters a bone of the list
  again: through its child offset, or through its sibling offset once what the child
  offset leads to has been read to the end. Offset 0 means "none", so no offset of a
  cycle is 0.
\<close>

definition cycle_link :: "(u8 list \<Rightarrow> nat \<Rightarrow> nat option) \<Rightarrow> u8 list \<Rightarrow> nat list \<Rightarrow> nat \<Rightarrow> bool" where
  "cycle_link readMeshData buf cyc p =
     (let f = fields_at buf p in
      p \<noteq> 0 \<and> p + 52 \<le> length buf \<and> mesh_reads readMeshData buf (chunkOfs f) \<and>
      (unat (childOfs f) \<in> set cyc \<or>
       link_returns readMeshData buf (childOfs f) \<and> unat (siblingOfs f) \<in> set cyc))"

definition offset_cycle :: "(u8 list \<Rightarrow> nat \<Rightarrow> nat option) \<Rightarrow> u8 list \<Rightarrow> nat list \<Rightarrow> bool" where
  "offset_cycle readMeshData buf cyc = list_all (cycle_link readMeshData buf cyc) cyc"

text \<open>
  Buffers for examples: some leading bytes, then bone records whose flags, chunk offset
  and transform fields are zero. In the first the root bone is at offset 4 and its child
  offset is 4, the root's own offset. In the second the root is at offset 4, its child
  at offset 56 is a bone without child or sibling, and the root's sibling offset is 4,
  the root's own offset.
\<close>

definition child_cycle_buf :: "u8 list" where
  "child_cycle_buf = replicate 4 0 @ replicate 44 0 @ [4, 0, 0, 0] @ [0, 0, 0, 0]"

definition sibling_cycle_buf :: "u8 list" where
  "sibling_cycle_buf =
     replicate 4 0 @
     replicate 44 0 @ [56, 0, 0, 0] @ [4, 0, 0, 0] @
     replicate 44 0 @ [0, 0, 0, 0] @ [0, 0, 0, 0]"


section \<open>NJ model reader: \<open>readChunk\<close> (NJ guide)\<close>

text \<open>
  The running state of the chunk interpreter: the reader's cursor and the two locals
  \<open>currentMaterial\<close> and \<open>currentColor\<close>. Whatever else the chunk readers keep (the
  strips they emit) lives in the extension of the record.
\<close>

record material_state =
  texId :: int
  blending :: bool
  doubleSide :: bool

record chunk_state =
  cursor :: nat
  currentMaterial :: material_state
  currentColor :: "real \<times> real \<times> real \<times> real"

text \<open>
  \<open>readStripChunk\<close>, \<open>readMaterialChunk\<close>, \<open>readTinyChunk\<close> and \<open>readBitsChunk\<close> are
  called by \<open>readChunk\<close> and defined in no source file: they are parameters, each taking
  the head and flag bytes and the state, and giving the new state or an error.
\<close>

record 'z chunk_handlers =
  readStripChunk :: "u8 \<Rightarrow> u8 \<Rightarrow> 'z chunk_state_scheme \<Rightarrow> nj_error + 'z chunk_state_scheme"
  readMaterialChunk :: "u8 \<Rightarrow> u8 \<Rightarrow> 'z chunk_state_scheme \<Rightarrow> nj_error + 'z chunk_state_scheme"
  readTinyChunk :: "u8 \<Rightarrow> u8 \<Rightarrow> 'z chunk_state_scheme \<Rightarrow> nj_error + 'z chunk_state_scheme"
  readBitsChunk :: "u8 \<Rightarrow> u8 \<Rightarrow> 'z chunk_state_scheme \<Rightarrow> nj_error + 'z chunk_state_scheme"

definition NJD_NULLOFF :: u8 where "NJD_NULLOFF = 0x00"
definition NJD_BITSOFF :: u8 where "NJD_BITSOFF = 0x01"
definition NJD_TINYOFF :: u8 where "NJD_TINYOFF = 0x08"
definition NJD_MATOFF :: u8 where "NJD_MATOFF = 0x10"
definition NJD_VERTOFF :: u8 where "NJD_VERTOFF = 0x20"
definition NJD_STRIPOFF :: u8 where "NJD_STRIPOFF = 0x40"
definition NJD_ENDOFF :: u8 where "NJD_ENDOFF = 0xff"

text \<open>
  The chain of comparisons that follows the end test. A vertex chunk is only logged; a
  null chunk (head 0) matches no branch.
\<close>

definition process_chunk ::
  "'z chunk_handlers \<Rightarrow> u8 \<Rightarrow> u8 \<Rightarrow> 'z chunk_state_scheme \<Rightarrow> nj_error + 'z chunk_state_scheme" where
  "process_chunk h head flag s =
     (if head \<ge> NJD_STRIPOFF then readStripChunk h head flag s
      else if head \<ge> NJD_VERTOFF then Inr s
      else if head \<ge> NJD_MATOFF then readMaterialChunk h head flag s
      else if head \<ge> NJD_TINYOFF then readTinyChunk h head flag s
      else if head \<ge> NJD_BITSOFF then readBitsChunk h head flag s
      else Inr s)"

text \<open>
  The \<open>do ... while (true)\<close> loop: both bytes of the chunk header are read, then the
  head is tested. Nothing bounds the loop but the end of the buffer and the chunk
  readers, so it is a partial function; \<open>None\<close> is the loop that never ends.
\<close>

partial_function (option) chunk_loop ::
  "'z chunk_handlers \<Rightarrow> u8 list \<Rightarrow> 'z chunk_state_scheme \<Rightarrow> (nj_error + 'z chunk_state_scheme) option"
where
  "chunk_loop h buf s =
     (case readUInt8 buf (cursor s) of
        Inl e \<Rightarrow> Some (Inl e)
      | Inr (head, p) \<Rightarrow>
          (case readUInt8 buf p of
             Inl e \<Rightarrow> Some (Inl e)
           | Inr (flag, p) \<Rightarrow>
               if head = NJD_ENDOFF then Some (Inr (s\<lparr>cursor := p\<rparr>))
               else
                 (case process_chunk h head flag (s\<lparr>cursor := p\<rparr>) of
                    Inl e \<Rightarrow> Some (Inl e)
                  | Inr s \<Rightarrow> chunk_loop h buf s)))"

declare chunk_loop.simps [code]

text \<open>\<open>readChunk\<close> at cursor \<open>p\<close>: the two locals get their initial values, then the loop runs.\<close>

definition chunk_init :: "nat \<Rightarrow> 'z \<Rightarrow> 'z chunk_state_scheme" where
  "chunk_init p ext =
     \<lparr>cursor = p,
      currentMaterial = \<lparr>texId = - 1, blending = False, doubleSide = False\<rparr>,
      currentColor = (1, 1, 1, 1),
      \<dots> = ext\<rparr>"

definition readChunk ::
  "'z chunk_handlers \<Rightarrow> u8 list \<Rightarrow> nat \<Rightarrow> 'z \<Rightarrow> (nj_error + 'z chunk_state_scheme) option" where
  "readChunk h buf p ext = chunk_loop h buf (chunk_init p ext)"

text \<open>
  The state after \<open>n\<close> passes through the body of the loop that all go on to the next
  pass: each reads a two-byte header whose head is not \<open>NJD_ENDOFF\<close> and hands it to
  the chunk reader for that head, which succeeds. \<open>None\<close> when one of the \<open>n\<close> passes
  fails or meets the end chunk.
\<close>

fun chunk_steps ::
  "'z chunk_handlers \<Rightarrow> u8 list \<Rightarrow> nat \<Rightarrow> 'z chunk_state_scheme \<Rightarrow> 'z chunk_state_scheme option" where
  "chunk_steps h buf 0 s = Some s"
| "chunk_steps h buf (Suc n) s =
     (case readUInt8 buf (cursor s) of
        Inl e \<Rightarrow> None
      | Inr (head, p) \<Rightarrow>
          (case readUInt8 buf p of
             Inl e \<Rightarrow> None
           | Inr (flag, p) \<Rightarrow>
               if head = NJD_ENDOFF then None
               else
                 (case process_chunk h head flag (s\<lparr>cursor := p\<rparr>) of
                    Inl e \<Rightarrow> None
                  | Inr s \<Rightarrow> chunk_steps h buf n s)))"

text \<open>Chunk readers that consume nothing and change nothing, for examples.\<close>

definition idle_handlers :: "unit chunk_handlers" where
  "idle_handlers =
     \<lparr>readStripChunk = (\<lambda>head flag s. Inr s), readMaterialChunk = (\<lambda>head flag s. Inr s),
      readTinyChunk = (\<lambda>head flag s. Inr s), readBitsChunk = (\<lambda>head flag s. Inr s)\<rparr>"

section \<open>The viewer component (\<open>NjViewer.tsx\<close>): exceptions\<close>

text \<open>
  A thrown JavaScript value, by its message. An \<open>async\<close> function that throws (a
  rejected promise) is \<open>Inl\<close>, one that returns is \<open>Inr\<close>. \<open>try_catch\<close> is
  \<open>try { body } catch (err) { handler }\<close>: the handler runs on what the body threw, and
  may itself throw.
\<close>

datatype js_error = Error string

definition js_bind :: "js_error + 'a \<Rightarrow> ('a \<Rightarrow> js_error + 'b) \<Rightarrow> js_error + 'b" where
  "js_bind r k = (case r of Inl e \<Rightarrow> Inl e | Inr v \<Rightarrow> k v)"

definition try_catch :: "js_error + 'a \<Rightarrow> (js_error \<Rightarrow> js_error + 'a) \<Rightarrow> js_error + 'a" where
  "try_catch body handler = (case body of Inl err \<Rightarrow> handler err | Inr v \<Rightarrow> Inr v)"

section \<open>The viewer component: \<open>processTextureEntry\<close> and \<open>processPvrFile\<close>\<close>

record image_data =
  img_width :: nat
  img_height :: nat
  img_pixels :: "u8 list"

record pvm_entry =
  entry_name :: string
  entry_data :: "u8 list"

record canvas =
  canvas_width :: nat
  canvas_height :: nat
  canvas_border :: string
  canvas_title :: string
  canvas_image :: "image_data option"

record user_data =
  applied :: bool
  ud_index :: "nat option"
  ud_path :: string
  fromPVM :: bool

record texture_obj =
  texture_canvas :: canvas
  flipY :: bool
  texture_name :: string
  needsUpdate :: bool
  userData :: user_data

text \<open>
  What the two functions call outside the component: \<open>parsePvr\<close> (in \<open>lib/parsePvr\<close>,
  not part of the sources), and the canvas operations of the browser. Each is a
  parameter that returns or throws; \<open>getContext\<close> gives \<open>False\<close> for a \<open>null\<close> context.
\<close>

record browser =
  parsePvr :: "u8 list \<Rightarrow> js_error + image_data"
  getContext :: "canvas \<Rightarrow> js_error + bool"
  putImageData :: "canvas \<Rightarrow> image_data \<Rightarrow> js_error + canvas"

text \<open>\<open>texturePath.split("/").pop() || ""\<close>: what follows the last slash.\<close>

definition last_component :: "string \<Rightarrow> string" where
  "last_component path = rev (takeWhile (\<lambda>c. c \<noteq> CHR ''/'') (rev path))"

definition processTextureEntry ::
  "browser \<Rightarrow> pvm_entry \<Rightarrow> string \<Rightarrow> js_error + (texture_obj \<times> canvas) option" where
  "processTextureEntry env entry texturePath =
     try_catch
       (js_bind (parsePvr env (entry_data entry)) (\<lambda>imageData.
        let canvas = \<lparr>canvas_width = img_width imageData, canvas_height = img_height imageData,
                       canvas_border = ''1px solid white'', canvas_title = entry_name entry,
                       canvas_image = None\<rparr>
        in js_bind (getContext env canvas) (\<lambda>context.
             if \<not> context then Inr None
             else
               js_bind (putImageData env canvas imageData) (\<lambda>canvas.
               let texture =
                     \<lparr>texture_canvas = canvas, flipY = False, texture_name = entry_name entry,
                      needsUpdate = True,
                      userData = \<lparr>applied = False, ud_index = None,
                                  ud_path = texturePath @ ''/'' @ entry_name entry,
                                  fromPVM = True\<rparr>\<rparr>
               in Inr (Some (texture, canvas))))))
       (\<lambda>err. Inr None)"

definition processPvrFile ::
  "browser \<Rightarrow> u8 list \<Rightarrow> string \<Rightarrow> nat \<Rightarrow> js_error + (texture_obj \<times> canvas \<times> nat) option" where
  "processPvrFile env buffer texturePath index =
     try_catch
       (js_bind (parsePvr env buffer) (\<lambda>imageData.
        let canvas = \<lparr>canvas_width = img_width imageData, canvas_height = img_height imageData,
                       canvas_border = ''1px solid white'',
                       canvas_title = last_component texturePath, canvas_image = None\<rparr>
        in js_bind (getContext env canvas) (\<lambda>context.
             if \<not> context then Inr None
             else
               js_bind (putImageData env canvas imageData) (\<lambda>canvas.
               let texture =
                     \<lparr>texture_canvas = canvas, flipY = False,
                      texture_name = last_component texturePath, needsUpdate = True,
                      userData = \<lparr>applied = False, ud_index = Some index,
                                  ud_path = texturePath, fromPVM = False\<rparr>\<rparr>
               in Inr (Some (texture, canvas, index))))))
       (\<lambda>err. Inr None)"

text \<open>A browser for examples, in which no texture parses.\<close>

definition failing_browser :: browser where
  "failing_browser =
     \<lparr>parsePvr = (\<lambda>bytes. Inl (Error ''Invalid PVR'')),
      getContext = (\<lambda>canvas. Inr True),
      putImageData = (\<lambda>canvas imageData. Inr (canvas\<lparr>canvas_image := Some imageData\<rparr>))\<rparr>"

section \<open>The viewer component: \<open>loadModel\<close>\<close>

text \<open>
  The options of one parsed material (\<open>materialOpts\<close>; a missing \<open>blending\<close> or
  \<open>doubleSide\<close> counts as false, as JavaScript's truth test does), and the Three.js
  materials built from them. A colour, an opacity or a texture map is \<open>None\<close> while the
  material still has the library's default.
\<close>

record material_opts =
  mo_texId :: int
  mo_blending :: bool
  mo_doubleSide :: bool
  mo_diffuseColor :: "(real \<times> real \<times> real \<times> real) option"

datatype side = FrontSide | DoubleSide

record 't phong_material =
  side :: side
  transparent :: bool
  material_name :: string
  color :: "(real \<times> real \<times> real) option"
  opacity :: "real option"
  texture_map :: "'t option"

datatype 't material = MeshPhongMaterial "'t phong_material" | MeshNormalMaterial

text \<open>
  The result of \<open>parseNinjaModel\<close> (\<open>NinjaModel\<close>). Geometry, bones, animation clips and
  textures are Three.js objects, left abstract as type variables.
\<close>

record ('g, 'b, 'c) ninja_model =
  geometry :: "'g option"
  materials :: "material_opts list option"
  nm_bones :: "'b list"
  clips :: "'c list option"
  textureNames :: "string list option"

record response =
  ok :: bool
  statusText :: string
  arrayBuffer :: "js_error + u8 list"

record ('g, 'b, 't) skinned_mesh =
  mesh_geometry :: 'g
  mesh_materials :: "'t material list"
  skeleton_bones :: "'b list"
  rootBone :: "'b option"
  skeletonHelper_visible :: bool

text \<open>
  What \<open>loadModel\<close> calls: \<open>fetch\<close>, \<open>parseNinjaModel\<close> (in \<open>lib/njParse\<close>, not part
  of the sources) and \<open>applyTextureToMaterial\<close>. The last one picks a texture for the
  material by name and by index and can throw; which texture it picks plays no part
  below, so it is a parameter that takes the material and gives it back changed, or
  throws.
\<close>

record ('g, 'b, 'c, 't, 'm) loader =
  fetch :: "string \<Rightarrow> js_error + response"
  parseNinjaModel :: "u8 list \<Rightarrow> js_error + ('g, 'b, 'c) ninja_model"
  applyTextureToMaterial ::
    "'t phong_material \<Rightarrow> material_opts \<Rightarrow> ('g, 'b, 'c) ninja_model \<Rightarrow> 'm \<Rightarrow> nat
       \<Rightarrow> js_error + 't phong_material"

text \<open>
  The template literal \<open>`Material_${index}`\<close> writes the index in decimal: the digits
  are produced from the last one, each put in front of those already there.
\<close>

function decimal_digits :: "nat \<Rightarrow> string \<Rightarrow> string" where
  "decimal_digits n acc =
     (let acc = char_of (n mod 10 + 48) # acc
      in if n div 10 = 0 then acc else decimal_digits (n div 10) acc)"
  by pat_completeness auto
termination
  by (relation "measure fst") auto

definition decimal :: "nat \<Rightarrow> string" where
  "decimal n = decimal_digits n []"

text \<open>The callback of \<open>parsedModel.materials.map\<close>.\<close>

definition make_material ::
  "('g, 'b, 'c, 't, 'm) loader \<Rightarrow> ('g, 'b, 'c) ninja_model \<Rightarrow> 'm \<Rightarrow> material_opts \<Rightarrow> nat
     \<Rightarrow> js_error + 't material" where
  "make_material env parsedModel textureMap materialOpts index =
     (let material =
            \<lparr>side = (if mo_doubleSide materialOpts then DoubleSide else FrontSide),
             transparent = (mo_blending materialOpts \<or> False),
             material_name = ''Material_'' @ decimal index,
             color = None, opacity = None, texture_map = None\<rparr>;
          material =
            (case mo_diffuseColor materialOpts of
               Some (r, g, b, a) \<Rightarrow> material\<lparr>color := Some (r, g, b), opacity := Some a\<rparr>
             | None \<Rightarrow> material)
      in js_bind (applyTextureToMaterial env material materialOpts parsedModel textureMap index)
           (\<lambda>material. Inr (MeshPhongMaterial material)))"

text \<open>\<open>Array.prototype.map\<close> with the index, stopping at the first callback that throws.\<close>

fun map_materials ::
  "('g, 'b, 'c, 't, 'm) loader \<Rightarrow> ('g, 'b, 'c) ninja_model \<Rightarrow> 'm \<Rightarrow> nat \<Rightarrow> material_opts list
     \<Rightarrow> js_error + 't material list" where
  "map_materials env parsedModel textureMap index [] = Inr []"
| "map_materials env parsedModel textureMap index (materialOpts # rest) =
     js_bind (make_material env parsedModel textureMap materialOpts index) (\<lambda>material.
     js_bind (map_materials env parsedModel textureMap (Suc index) rest) (\<lambda>materials.
     Inr (material # materials)))"

text \<open>
  \<open>loadModel\<close>. The first component of the result is the argument of the call to
  \<open>setAnimations\<close>, or \<open>None\<close> when the function throws before that call; the second is
  the mesh returned, or what was thrown. Logging is left out.
\<close>

definition loadModel ::
  "('g, 'b, 'c, 't, 'm) loader \<Rightarrow> string \<Rightarrow> 'm
     \<Rightarrow> 'c list option \<times> (js_error + ('g, 'b, 't) skinned_mesh)" where
  "loadModel env modelPath textureMap =
     (case fetch env (''/iso/'' @ modelPath) of
        Inl e \<Rightarrow> (None, Inl e)
      | Inr response \<Rightarrow>
          if \<not> ok response
          then (None, Inl (Error (''Failed to load model: '' @ statusText response)))
          else
            (case arrayBuffer response of
               Inl e \<Rightarrow> (None, Inl e)
             | Inr modelBuffer \<Rightarrow>
                 (case parseNinjaModel env modelBuffer of
                    Inl e \<Rightarrow> (None, Inl e)
                  | Inr parsedModel \<Rightarrow>
                      (Some (case clips parsedModel of
                               Some cs \<Rightarrow> if length cs > 0 then cs else []
                             | None \<Rightarrow> []),
                       case (geometry parsedModel, materials parsedModel) of
                         (Some g, Some ms) \<Rightarrow>
                           js_bind (map_materials env parsedModel textureMap 0 ms) (\<lambda>materials.
                           let materials =
                                 (if length materials = 0 then materials @ [MeshNormalMaterial]
                                  else materials)
                           in Inr \<lparr>mesh_geometry = g, mesh_materials = materials,
                                   skeleton_bones = nm_bones parsedModel,
                                   rootBone = (case nm_bones parsedModel of
                                                 [] \<Rightarrow> None | b # _ \<Rightarrow> Some b),
                                   skeletonHelper_visible = False\<rparr>)
                       | _ \<Rightarrow> (Inl (Error ''Model missing geometry or materials''))))))"

text \<open>A loader for examples: the model has a geometry, one bone and no material.\<close>

definition empty_model :: "(unit, unit, unit) ninja_model" where
  "empty_model =
     \<lparr>geometry = Some (), materials = Some [], nm_bones = [()], clips = None,
      textureNames = None\<rparr>"

definition empty_model_loader :: "(unit, unit, unit, unit, unit) loader" where
  "empty_model_loader =
     \<lparr>fetch = (\<lambda>url. Inr \<lparr>ok = True, statusText = ''OK'', arrayBuffer = Inr []\<rparr>),
      parseNinjaModel = (\<lambda>bytes. Inr empty_model),
      applyTextureToMaterial = (\<lambda>material materialOpts parsedModel textureMap index. Inr material)\<rparr>"

section \<open>Theorems\<close>

subsection \<open>Pixel format decoder\<close>

lemma bit_channel:
  assumes "n + up = 8"
  shows "bit (channel input sh (mask n) up) k \<longleftrightarrow> up \<le> k \<and> k < 8 \<and> bit input (sh + (k - up))"
  using assms
  by (auto simp: channel_def bit_ucast_iff bit_push_bit_iff bit_and_iff bit_mask_iff
      bit_drop_bit_eq add.commute dest: bit_imp_le_length)

lemma replicated_channel:
  assumes "n + up = 8" and "up \<le> n"
  shows "replicated n (pixel_field input sh n) (fill_low (channel input sh (mask n) up) n)"
proof -
  let ?c = "fill_low (channel input sh (mask n) up) n"
  have c: "bit ?c k \<longleftrightarrow> k < 8 \<and> (if up \<le> k then bit input (sh + (k - up)) else bit input (sh + (k + n - up)))" for k
    using assms
    by (auto simp: fill_low_def bit_or_iff bit_drop_bit_eq bit_channel [OF assms(1)] add.commute
        dest: bit_imp_le_length)
  have "drop_bit (8 - n) ?c = pixel_field input sh n"
    using assms
    by (intro bit_word_eqI)
       (auto simp: bit_drop_bit_eq c pixel_field_def bit_ucast_iff bit_take_bit_iff add.commute)
  moreover have "take_bit (8 - n) ?c = drop_bit n ?c"
    using assms
    by (intro bit_word_eqI)
       (auto simp: bit_drop_bit_eq c bit_take_bit_iff add.commute)
  ultimately show ?thesis by (simp add: replicated_def)
qed

lemma alpha_bit: "(input :: u16) AND 0x8000 \<noteq> 0 \<longleftrightarrow> bit input 15"
  using and_exp_eq_0_iff_not_bit [of input 15] by simp

text \<open>
  C5. The three fixed test vectors of the pixel format decoder: \<open>0xFFFF\<close> as RGB565
  is opaque white, \<open>0x8000\<close> as ARGB1555 is opaque black (alpha bit set, RGB zero), and
  \<open>0xF000\<close> as ARGB4444 is opaque black. For every 16-bit input, each channel of each
  format is its bit field widened to 8 bits by replication (the field in the top bits,
  the low bits repeating the channel's top bits), the alpha of RGB565 is \<open>0xFF\<close> and
  the alpha of ARGB1555 is \<open>0xFF\<close> or \<open>0x00\<close> after bit 15; so \<open>0x1234\<close> as ARGB4444 is
  \<open>(0x22, 0x33, 0x44, 0x11)\<close>.
\<close>

theorem pixel_test_vectors:
  "rgb565_to_rgba8888 0xFFFF = (255, 255, 255, 255) \<and>
   argb1555_to_rgba8888 0x8000 = (0, 0, 0, 255) \<and>
   argb4444_to_rgba8888 0xF000 = (0, 0, 0, 255) \<and>
   argb4444_to_rgba8888 0x1234 = (0x22, 0x33, 0x44, 0x11) \<and>
   (case rgb565_to_rgba8888 input of (r, g, b, a) \<Rightarrow>
      replicated 5 (pixel_field input 11 5) r \<and> replicated 6 (pixel_field input 5 6) g \<and>
      replicated 5 (pixel_field input 0 5) b \<and> a = 0xFF) \<and>
   (case argb1555_to_rgba8888 input of (r, g, b, a) \<Rightarrow>
      replicated 5 (pixel_field input 10 5) r \<and> replicated 5 (pixel_field input 5 5) g \<and>
      replicated 5 (pixel_field input 0 5) b \<and> a = (if bit input 15 then 0xFF else 0x00)) \<and>
   (case argb4444_to_rgba8888 input of (r, g, b, a) \<Rightarrow>
      replicated 4 (pixel_field input 8 4) r \<and> replicated 4 (pixel_field input 4 4) g \<and>
      replicated 4 (pixel_field input 0 4) b \<and> replicated 4 (pixel_field input 12 4) a)"
proof -
  have m: "(0x1F :: u32) = mask 5" "(0x3F :: u32) = mask 6" "(0xF :: u32) = mask 4"
    by (simp_all add: mask_eq_exp_minus_1)
  have v: "rgb565_to_rgba8888 0xFFFF = (255, 255, 255, 255)"
    "argb1555_to_rgba8888 0x8000 = (0, 0, 0, 255)"
    "argb4444_to_rgba8888 0xF000 = (0, 0, 0, 255)"
    "argb4444_to_rgba8888 0x1234 = (0x22, 0x33, 0x44, 0x11)"
    by (simp_all add: rgb565_to_rgba8888_def argb1555_to_rgba8888_def argb4444_to_rgba8888_def
        channel_def fill_low_def)
  have g565: "case rgb565_to_rgba8888 input of (r, g, b, a) \<Rightarrow>
      replicated 5 (pixel_field input 11 5) r \<and> replicated 6 (pixel_field input 5 6) g \<and>
      replicated 5 (pixel_field input 0 5) b \<and> a = 0xFF"
    unfolding rgb565_to_rgba8888_def Let_def m
    by (simp add: replicated_channel)
  have g1555: "case argb1555_to_rgba8888 input of (r, g, b, a) \<Rightarrow>
      replicated 5 (pixel_field input 10 5) r \<and> replicated 5 (pixel_field input 5 5) g \<and>
      replicated 5 (pixel_field input 0 5) b \<and> a = (if bit input 15 then 0xFF else 0x00)"
    unfolding argb1555_to_rgba8888_def Let_def m alpha_bit
    by (simp add: replicated_channel)
  have g4444: "case argb4444_to_rgba8888 input of (r, g, b, a) \<Rightarrow>
      replicated 4 (pixel_field input 8 4) r \<and> replicated 4 (pixel_field input 4 4) g \<and>
      replicated 4 (pixel_field input 0 4) b \<and> replicated 4 (pixel_field input 12 4) a"
    unfolding argb4444_to_rgba8888_def Let_def m
    by (simp add: replicated_channel)
  from v g565 g1555 g4444 show ?thesis by (intro conjI)
qed

subsection \<open>Morton index mapper\<close>

lemma bit_select:
  "bit (push_bit s ((ucast (x::u16) :: u32) AND push_bit i 1)) k \<longleftrightarrow>
     k = s + i \<and> k < 32 \<and> bit x i"
  by (auto simp: bit_push_bit_iff bit_and_iff bit_ucast_iff bit_exp_iff dest: bit_imp_le_length)

lemma bit_morton_step:
  "bit (morton_step x y i acc) k \<longleftrightarrow>
     bit acc k \<or> (k = 2 * i \<and> bit x i) \<or> (k = 2 * i + 1 \<and> bit y i)"
proof -
  have "bit x i \<Longrightarrow> 2 * i < 32" "bit y i \<Longrightarrow> 2 * i + 1 < 32"
    using bit_imp_le_length [of x i] bit_imp_le_length [of y i] by simp_all
  then show ?thesis
    unfolding morton_step_def bit_or_iff bit_select by auto
qed

lemma bit_morton_fold:
  "bit (fold (morton_step x y) [0..<n] acc) k \<longleftrightarrow>
     bit acc k \<or> (k div 2 < n \<and> (if even k then bit x (k div 2) else bit y (k div 2)))"
proof (induction n)
  case 0
  then show ?case by simp
next
  case (Suc n)
  show ?case
  proof (cases "even k")
    case True
    then have "k = 2 * n \<longleftrightarrow> k div 2 = n" "k \<noteq> 2 * n + 1" by presburger+
    with True show ?thesis
      by (auto simp add: Suc bit_morton_step less_Suc_eq)
  next
    case False
    then have "k = 2 * n + 1 \<longleftrightarrow> k div 2 = n" "k \<noteq> 2 * n" by presburger+
    with False show ?thesis
      by (auto simp add: Suc bit_morton_step less_Suc_eq)
  qed
qed

lemma bit_toMorton:
  "bit (toMorton x y) k \<longleftrightarrow> (if even k then bit x (k div 2) else bit y (k div 2))"
  using bit_imp_le_length [of x "k div 2"] bit_imp_le_length [of y "k div 2"]
  by (auto simp: toMorton_def bit_morton_fold)

lemma untwiddle_eq_toMorton: "untwiddle x y = toMorton x y"
  by (simp add: untwiddle_def toMorton_def)

lemma from_morton_step_fold:
  "fold (from_morton_step m) [0..<n] (ax, ay) = (bx, by) \<Longrightarrow>
     (bit bx k \<longleftrightarrow> bit ax k \<or> (k < n \<and> k < 16 \<and> bit m (2 * k))) \<and>
     (bit by k \<longleftrightarrow> bit ay k \<or> (k < n \<and> k < 16 \<and> bit m (2 * k + 1)))"
proof (induction n arbitrary: bx "by")
  case 0
  then show ?case by simp
next
  case (Suc n)
  obtain cx cy where c: "fold (from_morton_step m) [0..<n] (ax, ay) = (cx, cy)"
    by (cases "fold (from_morton_step m) [0..<n] (ax, ay)")
  from Suc.prems have "from_morton_step m n (cx, cy) = (bx, by)"
    by (simp add: c)
  then have b: "bx = cx OR push_bit n (ucast (drop_bit (2 * n) m AND 1))"
     "by = cy OR push_bit n (ucast (drop_bit (2 * n + 1) m AND 1))"
    by (simp_all add: from_morton_step_def)
  show ?case
    unfolding b using Suc.IH [OF c]
    by (auto simp: bit_or_iff bit_push_bit_iff bit_ucast_iff bit_and_iff bit_drop_bit_eq
        bit_1_iff less_Suc_eq)
qed

lemma from_morton_toMorton: "from_morton (toMorton x y) = (x, y)"
proof -
  obtain bx "by" where b: "fold (from_morton_step (toMorton x y)) [0..<16] (0, 0) = (bx, by)"
    by (cases "fold (from_morton_step (toMorton x y)) [0..<16] (0, 0)")
  have "bx = x"
    by (rule bit_word_eqI) (use from_morton_step_fold [OF b] in \<open>simp add: bit_toMorton\<close>)
  moreover have "by = y"
    by (rule bit_word_eqI) (use from_morton_step_fold [OF b] in \<open>simp add: bit_toMorton\<close>)
  ultimately show ?thesis by (simp add: from_morton_def b)
qed

text \<open>
  C2. Decoding the index produced by \<open>toMorton\<close> (and by its twin \<open>untwiddle\<close>) gives
  back the two 16-bit coordinates; x occupies the even bit positions and y the odd ones;
  and \<open>toMorton\<close> is injective on pairs of 16-bit coordinates.
\<close>

theorem morton_roundtrip:
  "from_morton (toMorton x y) = (x, y) \<and>
   from_morton (untwiddle x y) = (x, y) \<and>
   bit (toMorton x y) (2 * i) = bit x i \<and>
   bit (toMorton x y) (2 * i + 1) = bit y i \<and>
   (toMorton x y = toMorton x' y') = (x = x' \<and> y = y')"
proof -
  have "(toMorton x y = toMorton x' y') = (x = x' \<and> y = y')"
    by (metis from_morton_toMorton prod.inject)
  then show ?thesis
    by (simp add: from_morton_toMorton untwiddle_eq_toMorton bit_toMorton)
qed

subsection \<open>Twiddled texture decode\<close>

lemma for_loop_append:
  "for_loop (xs @ ys) body s =
     (case for_loop xs body s of Inl e \<Rightarrow> Inl e | Inr s' \<Rightarrow> for_loop ys body s')"
  by (induction xs arbitrary: s) (auto split: sum.splits)

lemma int32_id: "0 \<le> i \<Longrightarrow> i \<le> 2147483647 \<Longrightarrow> int32 i = i"
  unfolding int32_def sint_sbintrunc'
  by (rule signed_take_bit_int_eq_self) simp_all

lemma sint_eq_uint_u32: "\<not> bit (w::u32) 31 \<Longrightarrow> sint w = uint w"
proof -
  assume a: "\<not> bit w 31"
  have "take_bit 31 (uint w) = uint w"
  proof (rule bit_eqI)
    fix n
    show "bit (take_bit 31 (uint w)) n = bit (uint w) n"
      using a bit_imp_le_length [of w n]
      by (cases "n = 31") (auto simp: bit_take_bit_iff bit_uint_iff)
  qed
  with a show ?thesis
    by (simp add: sint_uint signed_take_bit_eq_if_positive bit_uint_iff)
qed

lemma untwiddle_nonneg:
  assumes "y < 32768"
  shows "sint (untwiddle (of_nat x) (of_nat y)) = int (unat (untwiddle (of_nat x) (of_nat y)))"
proof -
  have "\<not> bit (of_nat y :: u16) 15"
    using assms by (simp add: bit_of_nat_iff bit_iff_odd [of y])
  then have "\<not> bit (untwiddle (of_nat x) (of_nat y)) 31"
    by (simp add: untwiddle_eq_toMorton bit_toMorton)
  then show ?thesis
    by (simp add: sint_eq_uint_u32)
qed

lemma twiddled_after_0: "twiddled_after src w h dst 0 = dst"
  by (simp add: twiddled_after_def map_nth)

lemma length_twiddled_after [simp]: "length (twiddled_after src w h dst k) = length dst"
  by (simp add: twiddled_after_def)

lemma twiddled_after_step:
  assumes "k < length dst"
  shows "twiddled_after src w h dst (Suc k) =
           (twiddled_after src w h dst k)[k := twiddled_expected src w h dst k]"
proof (rule nth_equalityI)
  fix i
  assume "i < length (twiddled_after src w h dst (Suc k))"
  then have "i < length dst" by (simp add: twiddled_after_def)
  then show "twiddled_after src w h dst (Suc k) ! i =
      (twiddled_after src w h dst k)[k := twiddled_expected src w h dst k] ! i"
    by (cases "i = k") (simp_all add: twiddled_after_def nth_list_update less_Suc_eq)
qed (simp add: twiddled_after_def)

lemma twiddled_after_skip:
  assumes "twiddled_expected src w h dst k = dst ! k"
  shows "twiddled_after src w h dst (Suc k) = twiddled_after src w h dst k"
proof (rule nth_equalityI)
  fix i
  assume "i < length (twiddled_after src w h dst (Suc k))"
  then have "i < length dst" by (simp add: twiddled_after_def)
  then show "twiddled_after src w h dst (Suc k) ! i = twiddled_after src w h dst k ! i"
    using assms by (cases "i = k") (simp_all add: twiddled_after_def less_Suc_eq)
qed (simp add: twiddled_after_def)

lemma twiddled_pixel_step:
  assumes x: "x < w" and y: "y < h" and h: "h \<le> 32768" and wh: "w * h \<le> 2147483647"
    and src: "w * h \<le> length src" and dst: "w * h \<le> length dst"
  shows "twiddled_pixel src (int w) (int h) y x (twiddled_after src w h dst (y * w + x)) =
           Inr (twiddled_after src w h dst (Suc (y * w + x)))"
proof -
  let ?k = "y * w + x"
  let ?m = "unat (untwiddle (of_nat x) (of_nat y))"
  have k: "?k < w * h"
  proof -
    have "?k < y * w + w" using x by simp
    also have "\<dots> = Suc y * w" by simp
    also have "\<dots> \<le> h * w" using y by (intro mult_le_mono1) simp
    finally show ?thesis by (simp add: mult.commute)
  qed
  have kmod: "?k mod w = x" "?k div w = y" using x by simp_all
  have m: "sint (untwiddle (of_nat x) (of_nat y)) = int ?m"
    using y h by (intro untwiddle_nonneg) simp
  have wh32: "int32 (int w * int h) = int (w * h)"
    using wh by (simp add: int32_id flip: of_nat_mult)
  have yw: "y * w \<le> ?k" by simp
  have i32: "int32 (int32 (int y * int w) + int x) = int ?k"
  proof -
    have "int32 (int y * int w) = int (y * w)"
      using yw k wh by (simp add: int32_id flip: of_nat_mult)
    then show ?thesis
      using k wh by (simp add: int32_id flip: of_nat_mult of_nat_add)
  qed
  have c3: "\<not> (int32 (int32 (int y * int w) + int x) < 0
      \<or> int (length (twiddled_after src w h dst ?k)) \<le> int32 (int32 (int y * int w) + int x))"
  proof -
    have "?k < length dst" using k dst by (rule less_le_trans)
    then have "int ?k < int (length dst)" by (simp only: of_nat_less_iff)
    moreover have "0 \<le> int ?k" by (rule of_nat_0_le_iff)
    ultimately show ?thesis
      unfolding i32 length_twiddled_after by (simp only: not_less not_le de_Morgan_disj simp_thms)
  qed
  have n3: "nat (int32 (int32 (int y * int w) + int x)) = ?k"
    unfolding i32 by (simp only: nat_int)
  show ?thesis
  proof (cases "?m < w * h")
    case True
    then have e: "twiddled_expected src w h dst ?k = pack_argb (argb1555_to_rgba8888 (src ! ?m))"
      unfolding twiddled_expected_def kmod by simp
    have c1: "sint (untwiddle (of_nat x) (of_nat y)) < int32 (int w * int h)"
      unfolding m wh32 using True by (simp only: of_nat_less_iff)
    have c2: "\<not> (sint (untwiddle (of_nat x) (of_nat y)) < 0
        \<or> int (length src) \<le> sint (untwiddle (of_nat x) (of_nat y)))"
    proof -
      have "?m < length src" using True src by (rule less_le_trans)
      then have "int ?m < int (length src)" by (simp only: of_nat_less_iff)
      moreover have "0 \<le> int ?m" by (rule of_nat_0_le_iff)
      ultimately show ?thesis
        unfolding m by (simp only: not_less not_le de_Morgan_disj simp_thms)
    qed
    have n2: "nat (sint (untwiddle (of_nat x) (of_nat y))) = ?m"
      unfolding m by (simp only: nat_int)
    show ?thesis
      unfolding twiddled_pixel_def Let_def
      using k dst
      by (simp only: c1 c2 c3 n2 n3 if_True if_False twiddled_after_step e)
  next
    case False
    then have e: "twiddled_expected src w h dst ?k = dst ! ?k"
      unfolding twiddled_expected_def kmod by simp
    have c1: "\<not> sint (untwiddle (of_nat x) (of_nat y)) < int32 (int w * int h)"
      unfolding m wh32 using False by (simp only: of_nat_less_iff) simp
    show ?thesis
      unfolding twiddled_pixel_def Let_def
      by (simp only: c1 if_False twiddled_after_skip [OF e])
  qed
qed

lemma twiddled_row:
  assumes y: "y < h" and h: "h \<le> 32768" and wh: "w * h \<le> 2147483647"
    and src: "w * h \<le> length src" and dst: "w * h \<le> length dst"
  shows "n \<le> w \<Longrightarrow>
     for_loop [0..<n] (\<lambda>x. twiddled_pixel src (int w) (int h) y x)
        (twiddled_after src w h dst (y * w)) = Inr (twiddled_after src w h dst (y * w + n))"
proof (induction n)
  case 0
  then show ?case by simp
next
  case (Suc n)
  then have "n < w" by simp
  from twiddled_pixel_step [OF this y h wh src dst] Suc show ?case
    by (simp add: for_loop_append)
qed

lemma twiddled_rows:
  assumes h: "h \<le> 32768" and wh: "w * h \<le> 2147483647"
    and src: "w * h \<le> length src" and dst: "w * h \<le> length dst"
  shows "n \<le> h \<Longrightarrow>
     for_loop [0..<n] (\<lambda>y. for_loop [0..<w] (\<lambda>x. twiddled_pixel src (int w) (int h) y x)) dst
       = Inr (twiddled_after src w h dst (n * w))"
proof (induction n)
  case 0
  then show ?case by (simp add: twiddled_after_0)
next
  case (Suc n)
  then have "n < h" by simp
  from twiddled_row [OF this h wh src dst, of w] Suc show ?case
    by (simp add: for_loop_append add.commute)
qed

text \<open>
  C4, as the code has it. A twiddled decode never fails on a morton index that is out of
  range: for dimensions \<open>w\<close>, \<open>h\<close> with \<open>h \<le> 32768\<close>, \<open>w * h\<close> within \<open>int\<close>, and
  source and destination arrays of at least \<open>w * h\<close> entries, the decode returns
  normally; each output coordinate whose morton index is below \<open>w * h\<close> receives the
  converted source pixel at that index, and each coordinate whose morton index is
  \<open>w * h\<close> or more is skipped, its destination entry keeping the value it had.
\<close>

theorem twiddled_out_of_range_skipped:
  assumes "h \<le> 32768" and "w * h \<le> 2147483647"
    and "w * h \<le> length src" and "w * h \<le> length dst"
  shows "\<exists>dst'. decode_twiddled_texture src dst (int w) (int h) = Inr dst' \<and>
           length dst' = length dst \<and>
           (\<forall>y<h. \<forall>x<w. dst' ! (y * w + x) =
              (if unat (untwiddle (of_nat x) (of_nat y)) < w * h
               then pack_argb (argb1555_to_rgba8888 (src ! unat (untwiddle (of_nat x) (of_nat y))))
               else dst ! (y * w + x)))"
proof -
  let ?d = "twiddled_after src w h dst (h * w)"
  have run: "decode_twiddled_texture src dst (int w) (int h) = Inr ?d"
    using twiddled_rows [OF assms, of h] by (simp add: decode_twiddled_texture_def)
  have px: "?d ! (y * w + x) =
      (if unat (untwiddle (of_nat x) (of_nat y)) < w * h
       then pack_argb (argb1555_to_rgba8888 (src ! unat (untwiddle (of_nat x) (of_nat y))))
       else dst ! (y * w + x))" if y: "y < h" and x: "x < w" for x y
  proof -
    have "y * w + x < y * w + w" using x by simp
    also have "\<dots> = Suc y * w" by simp
    also have "\<dots> \<le> h * w" using y by (intro mult_le_mono1) simp
    finally have k: "y * w + x < h * w" .
    then have "y * w + x < length dst" using assms(4) by (simp add: mult.commute)
    then have "?d ! (y * w + x) = twiddled_expected src w h dst (y * w + x)"
      using k by (simp add: twiddled_after_def)
    also have "\<dots> = (if unat (untwiddle (of_nat x) (of_nat y)) < w * h
       then pack_argb (argb1555_to_rgba8888 (src ! unat (untwiddle (of_nat x) (of_nat y))))
       else dst ! (y * w + x))"
      using x by (simp add: twiddled_expected_def)
    finally show ?thesis .
  qed
  show ?thesis
    by (intro exI [of _ ?d] conjI allI impI run px) simp_all
qed

theorem twiddled_out_of_range_skipped_witness:
  "(2::nat) \<le> 32768 \<and> (1::nat) * 2 \<le> 2147483647 \<and>
   (1::nat) * 2 \<le> length [0x8000, 0xFFFF :: u16] \<and>
   (1::nat) * 2 \<le> length [0x11111111, 0x22222222 :: u32] \<and>
   (\<exists>dst'. decode_twiddled_texture [0x8000, 0xFFFF] [0x11111111, 0x22222222] 1 2 = Inr dst' \<and>
      length dst' = 2 \<and> dst' ! 0 = 0xFF000000 \<and> dst' ! 1 = 0x22222222)"
proof -
  let ?src = "[0x8000, 0xFFFF :: u16]" and ?dst = "[0x11111111, 0x22222222 :: u32]"
  have h: "(2::nat) \<le> 32768" "(1::nat) * 2 \<le> 2147483647"
    "(1::nat) * 2 \<le> length ?src" "(1::nat) * 2 \<le> length ?dst"
    by simp_all
  have m: "unat (untwiddle 0 0) = 0" "unat (untwiddle 0 1) = 2"
    "pack_argb (argb1555_to_rgba8888 0x8000) = 0xFF000000"
    by code_simp+
  from twiddled_out_of_range_skipped [OF h] obtain d where
    run: "decode_twiddled_texture ?src ?dst (int 1) (int 2) = Inr d" and len: "length d = length ?dst"
    and px: "\<And>x y. y < 2 \<Longrightarrow> x < 1 \<Longrightarrow> d ! (y * 1 + x) =
              (if unat (untwiddle (of_nat x) (of_nat y)) < 1 * 2
               then pack_argb (argb1555_to_rgba8888 (?src ! unat (untwiddle (of_nat x) (of_nat y))))
               else ?dst ! (y * 1 + x))"
    by blast
  have "d ! 0 = 0xFF000000" using px [of 0 0] by (simp add: m)
  moreover have "d ! 1 = 0x22222222" using px [of 1 0] by (simp add: m)
  ultimately show ?thesis using run len h by simp
qed

text \<open>
  C4 as stated fails: for a 1 by 2 texture the coordinate (0, 1) has morton index 2, which
  is not below \<open>1 * 2\<close>, and the decode returns normally with that destination entry
  untouched.
\<close>

theorem twiddled_decode_counterexample:
  "2 \<le> sint (untwiddle 0 1) \<and>
   decode_twiddled_texture [0x8000, 0xFFFF] [0x11111111, 0x22222222] 1 2
     = Inr [0xFF000000, 0x22222222]"
  by code_simp

subsection \<open>SMALLVQ codebook size\<close>

text \<open>
  C6. The codebook entry count of a SMALLVQ texture is a function of its two dimensions:
  16 entries up to 16 by 16, 32 up to 32 by 32, 128 up to 64 by 64, 256 above; a VQ
  texture that is not small has 256 entries whatever its dimensions.
\<close>

theorem smallvq_codebook_size:
  "codebook_size True w h =
     (if max w h \<le> 16 then 16 else if max w h \<le> 32 then 32
      else if max w h \<le> 64 then 128 else 256) \<and>
   codebook_size True 16 16 = 16 \<and> codebook_size True 32 32 = 32 \<and>
   codebook_size True 64 64 = 128 \<and> codebook_size True 128 128 = 256 \<and>
   codebook_size False w h = 256"
  by (simp add: codebook_size_def)

subsection \<open>PVM header parser\<close>

lemma size_width_pow: "size_width sz = 2 ^ nat (sz mod 16 + 2)"
proof -
  have "sz AND mask 4 = sz mod 2 ^ 4"
    by (simp add: take_bit_eq_mod flip: take_bit_eq_mask)
  then have "sz AND 15 = sz mod 16"
    by (simp add: mask_eq_exp_minus_1)
  then show ?thesis by (simp add: size_width_def push_bit_eq_mult)
qed

lemma size_height_pow: "size_height sz = 2 ^ nat (sz div 16 mod 16 + 2)"
proof -
  have "drop_bit 4 sz AND mask 4 = drop_bit 4 sz mod 2 ^ 4"
    by (simp add: take_bit_eq_mod flip: take_bit_eq_mask)
  then have "drop_bit 4 sz AND 15 = sz div 16 mod 16"
    by (simp add: mask_eq_exp_minus_1 drop_bit_eq_div)
  then show ?thesis by (simp add: size_height_def push_bit_eq_mult)
qed

lemma read_name_rest:
  "read_name decode flags (t, f) = Inr (t', f') \<Longrightarrow>
     f' = drop (if flags AND 0x08 \<noteq> 0 then 28 else 0) f"
  by (auto simp: read_name_def f_read_def split: if_splits option.splits)

lemma read_format_rest:
  "read_format flags (t, f) = Inr (t', f') \<Longrightarrow>
     f' = drop (if flags AND 0x04 \<noteq> 0 then 2 else 0) f"
  by (auto simp: read_format_def f_read_def split: if_splits sum.splits)

lemma read_size_result:
  "flags AND 0x02 \<noteq> 0 \<Longrightarrow> read_size flags (t, f) = Inr (t', f') \<Longrightarrow>
     \<exists>sz. unpack_H (take 2 f) = Inr sz \<and>
       tex_width t' = Some (size_width sz) \<and> tex_height t' = Some (size_height sz)"
  by (auto simp: read_size_def f_read_def split: if_splits sum.splits)

lemma read_global_index_keeps:
  "read_global_index flags (t, f) = Inr (t', f') \<Longrightarrow>
     tex_width t' = tex_width t \<and> tex_height t' = tex_height t"
  by (auto simp: read_global_index_def f_read_def split: if_splits sum.splits)

lemma parse_texture_size:
  assumes fl: "flags AND 0x02 \<noteq> 0" and ok: "parse_texture decode flags f = Inr (t, rest)"
  shows "\<exists>sz. unpack_H (take 2 (drop (size_field_offset flags) f)) = Inr sz \<and>
           tex_width t = Some (size_width sz) \<and> tex_height t = Some (size_height sz)"
proof -
  from ok obtain idx t1 f1 t2 f2 t3 f3 where
    i: "unpack_H (take 2 f) = Inr idx"
    and n: "read_name decode flags (\<lparr>tex_index = idx, tex_name = None, tex_format = None,
              tex_width = None, tex_height = None, tex_global_index = None\<rparr>, drop 2 f) = Inr (t1, f1)"
    and fm: "read_format flags (t1, f1) = Inr (t2, f2)"
    and sz: "read_size flags (t2, f2) = Inr (t3, f3)"
    and g: "read_global_index flags (t3, f3) = Inr (t, rest)"
    by (auto simp: parse_texture_def py_bind_def f_read_def split: sum.splits)
  have "f2 = drop (size_field_offset flags) f"
    using read_name_rest [OF n] read_format_rest [OF fm]
    by (simp add: size_field_offset_def add.commute)
  with read_size_result [OF fl sz] read_global_index_keeps [OF g] show ?thesis
    by auto
qed

text \<open>
  C7. The size field decodes to \<open>width = 1 << ((size & 0xF) + 2)\<close> and
  \<open>height = 1 << (((size >> 4) & 0xF) + 2)\<close>, that is \<open>2\<close> to the power of the low
  nibble plus 2 and of the next nibble plus 2; \<open>size = 0x34\<close> gives width 64 and height
  32; and whenever the container flags include \<open>0x02\<close>, the width and height of a parsed
  entry are this decoding of the 16-bit field found at the size field's offset.
\<close>

theorem pvm_size_field_decode:
  "size_width sz = push_bit (nat ((sz AND 0xF) + 2)) 1 \<and>
   size_height sz = push_bit (nat ((drop_bit 4 sz AND 0xF) + 2)) 1 \<and>
   size_width sz = 2 ^ nat (sz mod 16 + 2) \<and>
   size_height sz = 2 ^ nat (sz div 16 mod 16 + 2) \<and>
   size_width 0x34 = 64 \<and> size_height 0x34 = 32 \<and>
   (flags AND 0x02 \<noteq> 0 \<and> parse_texture decode flags f = Inr (t, rest) \<longrightarrow>
      (\<exists>s. unpack_H (take 2 (drop (size_field_offset flags) f)) = Inr s \<and>
         tex_width t = Some (size_width s) \<and> tex_height t = Some (size_height s)))"
proof -
  have v: "size_width 0x34 = 64" "size_height 0x34 = 32"
    by (simp_all add: size_width_pow size_height_pow)
  have d: "size_width sz = push_bit (nat ((sz AND 0xF) + 2)) 1"
    "size_height sz = push_bit (nat ((drop_bit 4 sz AND 0xF) + 2)) 1"
    by (simp_all only: size_width_def size_height_def)
  have e: "flags AND 0x02 \<noteq> 0 \<and> parse_texture decode flags f = Inr (t, rest) \<longrightarrow>
      (\<exists>s. unpack_H (take 2 (drop (size_field_offset flags) f)) = Inr s \<and>
         tex_width t = Some (size_width s) \<and> tex_height t = Some (size_height s))"
    using parse_texture_size [of flags decode f t rest] by blast
  show ?thesis
    by (intro conjI d v e size_width_pow size_height_pow)
qed

theorem pvm_size_field_decode_witness:
  "(2::int) AND 0x02 \<noteq> 0 \<and>
   parse_texture ascii_decode 2 [5, 0, 0x34, 0] =
     Inr (\<lparr>tex_index = 5, tex_name = None, tex_format = None, tex_width = Some 64,
            tex_height = Some 32, tex_global_index = None\<rparr>, []) \<and>
   (\<exists>s. unpack_H (take 2 (drop (size_field_offset 2) [5, 0, 0x34, 0])) = Inr s \<and>
      Some (64::int) = Some (size_width s) \<and> Some (32::int) = Some (size_height s))"
proof -
  have p: "parse_texture ascii_decode 2 [5, 0, 0x34, 0] =
     Inr (\<lparr>tex_index = 5, tex_name = None, tex_format = None, tex_width = Some 64,
            tex_height = Some 32, tex_global_index = None\<rparr>, [])"
    by code_simp
  have fl: "(2::int) AND 0x02 \<noteq> 0" by simp
  let ?t = "\<lparr>tex_index = 5, tex_name = None, tex_format = None, tex_width = Some 64,
            tex_height = Some 32, tex_global_index = None\<rparr>"
  have "(2::int) AND 0x02 \<noteq> 0 \<and> parse_texture ascii_decode 2 [5, 0, 0x34, 0] = Inr (?t, []) \<longrightarrow>
      (\<exists>s. unpack_H (take 2 (drop (size_field_offset 2) [5, 0, 0x34, 0])) = Inr s \<and>
         tex_width ?t = Some (size_width s) \<and> tex_height ?t = Some (size_height s))"
    using pvm_size_field_decode [of 0 2 ascii_decode "[5, 0, 0x34, 0]" ?t "[]"] by blast
  with p fl show ?thesis by simp
qed

subsection \<open>NJ model reader\<close>

lemma read_bone_fields_eq:
  "read_bone_fields buf p =
     (if p + 52 \<le> length buf then Inr (fields_at buf p, p + 52) else Inl TruncatedInput)"
  by (simp add: read_bone_fields_def readVector3_def readRotation_def readUInt32_def nj_bind_def
      fields_at_def isBitFlagSet_def add.assoc)

lemma read_mesh_error:
  "read_mesh rmd buf ofs s = Inl e \<Longrightarrow> e \<noteq> CyclicReference"
  by (auto simp: read_mesh_def nj_bind_def seek_def split: if_splits option.splits)

lemma readBone_not_cyclic:
  "readBone rmd buf par s = Some r \<Longrightarrow> r \<noteq> Inl CyclicReference"
proof -
  assume run: "readBone rmd buf par s = Some r"
  show ?thesis
  proof (rule readBone.raw_induct [where P = "\<lambda>_ _ _ _ r. r \<noteq> Inl CyclicReference", OF _ run],
      goal_cases)
    case (1 rb rmd buf par s r)
    note IH = "1"(1) and body = "1"(2)
    show ?case
    proof (cases "read_bone_fields buf (pos s)")
      case (Inl e)
      with body show ?thesis
        by (auto simp: read_bone_fields_eq split: if_splits)
    next
      case (Inr fp)
      obtain f p where fp: "fp = (f, p)" by (cases fp)
      let ?s1 = "\<lparr>pos = p, bones = bones s @ [new_bone f par]\<rparr>"
      show ?thesis
      proof (cases "read_mesh rmd buf (chunkOfs f) ?s1")
        case (Inl e)
        with body Inr fp show ?thesis
          by (auto dest: read_mesh_error simp: Let_def)
      next
        case mesh: (Inr s2)
        from body Inr fp mesh obtain a where
          A: "(if childOfs f \<noteq> 0 then
                 (case seek buf (unat (childOfs f)) of
                    Inl e \<Rightarrow> Some (Inl e)
                  | Inr q \<Rightarrow> rb rmd buf (Some (length (bones s))) (s2\<lparr>pos := q\<rparr>))
               else Some (Inr s2)) = Some a"
          and K: "(case a of
                     Inl e \<Rightarrow> Some (Inl e)
                   | Inr s3 \<Rightarrow>
                       if siblingOfs f \<noteq> 0 then
                         (case seek buf (unat (siblingOfs f)) of
                            Inl e \<Rightarrow> Some (Inl e)
                          | Inr q \<Rightarrow> rb rmd buf par (s3\<lparr>pos := q\<rparr>))
                       else Some (Inr s3)) = Some r"
          by (auto simp: Let_def bind_eq_Some_conv)
        from A have "a \<noteq> Inl CyclicReference"
          by (auto simp: seek_def split: if_splits dest: IH)
        with K show ?thesis
          by (auto simp: seek_def split: if_splits sum.splits dest: IH)
      qed
    qed
  qed
qed

lemma read_mesh_ok:
  assumes "mesh_reads rmd buf ofs"
  shows "\<exists>s2. read_mesh rmd buf ofs s1 = Inr s2"
  using assms
  by (cases "ofs = 0") (auto simp: mesh_reads_def read_mesh_def nj_bind_def seek_def)

lemma returns_readBone:
  "bone_returns rmd buf p \<Longrightarrow>
     (\<forall>par s. pos s = p \<longrightarrow> (\<exists>s'. readBone rmd buf par s = Some (Inr s')))"
  "link_returns rmd buf ofs \<Longrightarrow>
     ofs = 0 \<or> unat ofs \<le> length buf \<and>
       (\<forall>par s. pos s = unat ofs \<longrightarrow> (\<exists>s'. readBone rmd buf par s = Some (Inr s')))"
proof (induct rule: bone_returns_link_returns.inducts)
  case (bone p)
  show ?case
  proof (intro allI impI)
    fix par and s :: nj_state
    assume p: "pos s = p"
    let ?f = "fields_at buf p"
    let ?s1 = "\<lparr>pos = p + 52, bones = bones s @ [new_bone ?f par]\<rparr>"
    from read_mesh_ok [OF bone(2)] obtain s2 where
      s2: "read_mesh rmd buf (chunkOfs ?f) ?s1 = Inr s2" by blast
    from bone(4) have "\<exists>s3. (if childOfs ?f \<noteq> 0 then
             (case seek buf (unat (childOfs ?f)) of
                Inl e \<Rightarrow> Some (Inl e)
              | Inr q \<Rightarrow> readBone rmd buf (Some (length (bones s))) (s2\<lparr>pos := q\<rparr>))
           else Some (Inr s2)) = Some (Inr s3)"
      by (cases "childOfs ?f = 0") (simp_all add: seek_def)
    then obtain s3 where
      A: "(if childOfs ?f \<noteq> 0 then
             (case seek buf (unat (childOfs ?f)) of
                Inl e \<Rightarrow> Some (Inl e)
              | Inr q \<Rightarrow> readBone rmd buf (Some (length (bones s))) (s2\<lparr>pos := q\<rparr>))
           else Some (Inr s2)) = Some (Inr s3)" ..
    from bone(6) have "\<exists>s4. (if siblingOfs ?f \<noteq> 0 then
             (case seek buf (unat (siblingOfs ?f)) of
                Inl e \<Rightarrow> Some (Inl e)
              | Inr q \<Rightarrow> readBone rmd buf par (s3\<lparr>pos := q\<rparr>))
           else Some (Inr s3)) = Some (Inr s4)"
      by (cases "siblingOfs ?f = 0") (simp_all add: seek_def)
    then obtain s4 where
      K: "(if siblingOfs ?f \<noteq> 0 then
             (case seek buf (unat (siblingOfs ?f)) of
                Inl e \<Rightarrow> Some (Inl e)
              | Inr q \<Rightarrow> readBone rmd buf par (s3\<lparr>pos := q\<rparr>))
           else Some (Inr s3)) = Some (Inr s4)" ..
    have "readBone rmd buf par s = Some (Inr s4)"
      by (subst readBone.simps)
         (simp add: read_bone_fields_eq p bone(1) s2 A K Let_def del: if_split cong: if_cong)
    then show "\<exists>s'. readBone rmd buf par s = Some (Inr s')" ..
  qed
next
  case no_link
  show ?case by simp
next
  case (link ofs)
  from link(2) have "unat ofs + 52 \<le> length buf"
    by (cases rule: bone_returns.cases) simp
  with link(3) show ?case by simp
qed

lemma readBone_offset_cycle:
  assumes cyc: "offset_cycle rmd buf cyc" and start: "pos s \<in> set cyc"
  shows "readBone rmd buf par s = None"
proof (rule ccontr)
  assume "readBone rmd buf par s \<noteq> None"
  then obtain r where run: "readBone rmd buf par s = Some r" by auto
  have "readBone rmd buf par s = Some r \<and> \<not> (offset_cycle rmd buf cyc \<and> pos s \<in> set cyc)"
  proof (rule readBone.raw_induct
      [where P = "\<lambda>rmd buf par s r. readBone rmd buf par s = Some r \<and>
         \<not> (offset_cycle rmd buf cyc \<and> pos s \<in> set cyc)", OF _ run],
      goal_cases)
    case (1 rb rmd buf par s r)
    note IH = "1"(1) and body = "1"(2)
    have below: "readBone rmd buf par s = Some y" if "rb rmd buf par s = Some y" for par s y
      using IH [OF that] by simp
    let ?p = "pos s"
    let ?f = "fields_at buf ?p"
    let ?s1 = "\<lparr>pos = ?p + 52, bones = bones s @ [new_bone ?f par]\<rparr>"
    show ?case
    proof (cases "?p + 52 \<le> length buf")
      case False
      with body have "r = Inl TruncatedInput"
        by (simp add: read_bone_fields_eq)
      moreover from False have "readBone rmd buf par s = Some (Inl TruncatedInput)"
        by (subst readBone.simps) (simp add: read_bone_fields_eq)
      moreover from False have "\<not> (offset_cycle rmd buf cyc \<and> ?p \<in> set cyc)"
        by (auto simp: offset_cycle_def list_all_iff cycle_link_def Let_def)
      ultimately show ?thesis by simp
    next
      case len: True
      show ?thesis
      proof (cases "read_mesh rmd buf (chunkOfs ?f) ?s1")
        case (Inl e)
        with body len have "r = Inl e"
          by (simp add: read_bone_fields_eq)
        moreover from Inl len have "readBone rmd buf par s = Some (Inl e)"
          by (subst readBone.simps) (simp add: read_bone_fields_eq)
        moreover from Inl have "\<not> mesh_reads rmd buf (chunkOfs ?f)"
          using read_mesh_ok [of rmd buf "chunkOfs ?f" ?s1] by auto
        then have "\<not> (offset_cycle rmd buf cyc \<and> ?p \<in> set cyc)"
          by (auto simp: offset_cycle_def list_all_iff cycle_link_def Let_def)
        ultimately show ?thesis by simp
      next
        case s2: (Inr s2)
        let ?A = "\<lambda>g. (if childOfs ?f \<noteq> 0 then
               (case seek buf (unat (childOfs ?f)) of
                  Inl e \<Rightarrow> Some (Inl e)
                | Inr q \<Rightarrow> g rmd buf (Some (length (bones s))) (s2\<lparr>pos := q\<rparr>))
             else Some (Inr s2))"
        let ?K = "\<lambda>g a. (case a of
                   Inl e \<Rightarrow> Some (Inl e)
                 | Inr s3 \<Rightarrow>
                     if siblingOfs ?f \<noteq> 0 then
                       (case seek buf (unat (siblingOfs ?f)) of
                          Inl e \<Rightarrow> Some (Inl e)
                        | Inr q \<Rightarrow> g rmd buf par (s3\<lparr>pos := q\<rparr>))
                     else Some (Inr s3))"
        from body len s2 obtain a where A: "?A rb = Some a" and K: "?K rb a = Some r"
          by (auto simp: read_bone_fields_eq Let_def bind_eq_Some_conv)
        from A have A': "?A readBone = Some a"
          by (auto split: if_splits sum.splits dest: below)
        from K have K': "?K readBone a = Some r"
          by (auto split: if_splits sum.splits dest: below)
        have unfold: "readBone rmd buf par s = Option.bind (?A readBone) (?K readBone)"
          using len s2 by (subst readBone.simps) (simp add: read_bone_fields_eq Let_def)
        have full: "readBone rmd buf par s = Some r"
          unfolding unfold A' using K' by simp
        have "\<not> (offset_cycle rmd buf cyc \<and> ?p \<in> set cyc)"
        proof
          assume sc: "offset_cycle rmd buf cyc \<and> ?p \<in> set cyc"
          then have oc: "offset_cycle rmd buf cyc" and "cycle_link rmd buf cyc ?p"
            by (simp_all add: offset_cycle_def list_all_iff)
          then have link: "unat (childOfs ?f) \<in> set cyc \<or>
              link_returns rmd buf (childOfs ?f) \<and> unat (siblingOfs ?f) \<in> set cyc"
            by (simp add: cycle_link_def Let_def)
          have inside: "q \<noteq> 0 \<and> q \<le> length buf" if "q \<in> set cyc" for q
            using oc that by (auto simp: offset_cycle_def list_all_iff cycle_link_def Let_def)
          from link show False
          proof
            assume c: "unat (childOfs ?f) \<in> set cyc"
            from inside [OF c] have "childOfs ?f \<noteq> 0" "unat (childOfs ?f) \<le> length buf"
              by auto
            with A have "rb rmd buf (Some (length (bones s))) (s2\<lparr>pos := unat (childOfs ?f)\<rparr>) = Some a"
              by (simp add: seek_def)
            from IH [OF this] oc c show False by simp
          next
            assume c: "link_returns rmd buf (childOfs ?f) \<and> unat (siblingOfs ?f) \<in> set cyc"
            then have sib: "unat (siblingOfs ?f) \<in> set cyc" ..
            from inside [OF sib] have sib0: "siblingOfs ?f \<noteq> 0" "unat (siblingOfs ?f) \<le> length buf"
              by auto
            from c have "link_returns rmd buf (childOfs ?f)" ..
            from returns_readBone(2) [OF this] have "\<exists>s3. ?A readBone = Some (Inr s3)"
              by (cases "childOfs ?f = 0") (simp_all add: seek_def)
            with A' obtain s3 where "a = Inr s3" by auto
            with K sib0 have "rb rmd buf par (s3\<lparr>pos := unat (siblingOfs ?f)\<rparr>) = Some r"
              by (simp add: seek_def)
            from IH [OF this] oc sib show False by simp
          qed
        qed
        with full show ?thesis by simp
      qed
    qed
  qed
  with assms show False by simp
qed


text \<open>
  C1, as the code has it. \<open>readBone\<close> keeps no set of visited offsets and never reports
  \<open>CyclicReference\<close>. On a cycle of offsets (complete bone records whose mesh step
  succeeds, each entering a bone of the cycle again through its child offset, or through
  its sibling offset once what its child offset leads to has been read to the end), the
  read of a bone of the cycle recurses without bound and never returns. In a JavaScript
  engine that recursion ends when the call stack is exhausted.
\<close>

theorem readBone_no_visited_guard:
  "readBone rmd buf par s \<noteq> Some (Inl CyclicReference) \<and>
   (offset_cycle rmd buf cyc \<and> pos s \<in> set cyc \<longrightarrow> readBone rmd buf par s = None)"
  using readBone_not_cyclic [of rmd buf par s "Inl CyclicReference"]
    readBone_offset_cycle [of rmd buf cyc s par]
  by blast

theorem readBone_no_visited_guard_witness:
  "offset_cycle no_mesh sibling_cycle_buf [4] \<and>
   pos \<lparr>pos = 4, bones = []\<rparr> \<in> set [4] \<and>
   readBone no_mesh sibling_cycle_buf None \<lparr>pos = 4, bones = []\<rparr> = None"
proof -
  have root: "chunkOfs (fields_at sibling_cycle_buf 4) = 0"
    "childOfs (fields_at sibling_cycle_buf 4) = 56" "siblingOfs (fields_at sibling_cycle_buf 4) = 4"
    by (simp_all add: fields_at_def u32_at_def sibling_cycle_buf_def nth_append)
  have leaf: "chunkOfs (fields_at sibling_cycle_buf 56) = 0"
    "childOfs (fields_at sibling_cycle_buf 56) = 0" "siblingOfs (fields_at sibling_cycle_buf 56) = 0"
    by (simp_all add: fields_at_def u32_at_def sibling_cycle_buf_def nth_append)
  have len: "length sibling_cycle_buf = 108"
    by (simp add: sibling_cycle_buf_def)
  have "bone_returns no_mesh sibling_cycle_buf 56"
    by (rule bone_returns_link_returns.bone)
       (simp_all add: len leaf mesh_reads_def bone_returns_link_returns.no_link)
  then have "link_returns no_mesh sibling_cycle_buf 56"
    by (intro bone_returns_link_returns.link) simp_all
  then have "offset_cycle no_mesh sibling_cycle_buf [4]"
    by (simp add: offset_cycle_def cycle_link_def root len mesh_reads_def)
  then show ?thesis
    using readBone_no_visited_guard [of no_mesh sibling_cycle_buf None "\<lparr>pos = 4, bones = []\<rparr>" "[4]"]
    by simp
qed

text \<open>
  C1 as stated fails: with the root bone at offset 4 and a child offset of 4, the root's
  own offset, reading the bone tree does not end with \<open>CyclicReference\<close>; it does not
  return at all.
\<close>

theorem readBone_cycle_counterexample:
  "readBone no_mesh child_cycle_buf None \<lparr>pos = 4, bones = []\<rparr> = None"
proof -
  have "offset_cycle no_mesh child_cycle_buf [4]"
    by (simp add: offset_cycle_def cycle_link_def mesh_reads_def fields_at_def u32_at_def
        child_cycle_buf_def nth_append)
  then show ?thesis
    using readBone_offset_cycle [of no_mesh child_cycle_buf "[4]" "\<lparr>pos = 4, bones = []\<rparr>" None]
    by simp
qed



subsection \<open>Chunk stream interpreter\<close>

lemma chunk_loop_end:
  assumes "cursor s + 2 \<le> length buf" and "buf ! cursor s = 0xFF"
  shows "chunk_loop h buf s = Some (Inr (s\<lparr>cursor := cursor s + 2\<rparr>))"
  using assms
  by (subst chunk_loop.simps) (simp add: readUInt8_def NJD_ENDOFF_def)

lemma chunk_loop_end_truncated:
  assumes "cursor s + 1 = length buf" and "buf ! cursor s = 0xFF"
  shows "chunk_loop h buf s = Some (Inl TruncatedInput)"
  using assms
  by (subst chunk_loop.simps) (simp add: readUInt8_def)

lemma chunk_loop_stops_after_end:
  assumes run: "chunk_loop h buf s = Some (Inr s')"
  shows "2 \<le> cursor s' \<and> cursor s' \<le> length buf \<and> buf ! (cursor s' - 2) = 0xFF"
proof -
  show ?thesis
  proof (rule chunk_loop.raw_induct [where P = "\<lambda>_ buf _ r. \<forall>s'. r = Inr s' \<longrightarrow>
        2 \<le> cursor s' \<and> cursor s' \<le> length buf \<and> buf ! (cursor s' - 2) = 0xFF",
        OF _ run, rule_format], goal_cases)
    case (1 loop h buf s r s')
    note IH = "1"(1) and body = "1"(2) and r = "1"(3)
    from body r show ?case
      by (auto simp: readUInt8_def NJD_ENDOFF_def split: if_splits sum.splits dest: IH)
  next
    case 2
    show ?case by simp
  qed
qed

lemma cursor_chunk_init [simp]: "cursor (chunk_init p ext) = p"
  by (simp add: chunk_init_def)

lemma chunk_init_cursor_update: "(chunk_init p ext)\<lparr>cursor := q\<rparr> = chunk_init q ext"
  by (simp add: chunk_init_def)

lemma chunk_loop_after_steps:
  assumes "chunk_steps h buf n s = Some sn"
  shows "chunk_loop h buf s = chunk_loop h buf sn"
  using assms
proof (induction n arbitrary: s)
  case 0
  then show ?case by simp
next
  case (Suc n)
  from Suc.prems obtain head flag s1 where
    h: "readUInt8 buf (cursor s) = Inr (head, cursor s + 1)"
    and f: "readUInt8 buf (cursor s + 1) = Inr (flag, cursor s + 2)"
    and ne: "head \<noteq> NJD_ENDOFF"
    and p: "process_chunk h head flag (s\<lparr>cursor := cursor s + 2\<rparr>) = Inr s1"
    and rest: "chunk_steps h buf n s1 = Some sn"
    by (auto simp: readUInt8_def split: if_splits sum.splits)
  have "chunk_loop h buf s = chunk_loop h buf s1"
    by (subst chunk_loop.simps) (use h f ne p in simp)
  with Suc.IH [OF rest] show ?case by simp
qed

lemma chunk_loop_returns_iff:
  "chunk_loop h buf s = Some (Inr s') \<longleftrightarrow>
     (\<exists>n sn. chunk_steps h buf n s = Some sn \<and> cursor sn + 2 \<le> length buf \<and>
        buf ! cursor sn = 0xFF \<and> s' = sn\<lparr>cursor := cursor sn + 2\<rparr>)"
proof
  assume run: "chunk_loop h buf s = Some (Inr s')"
  show "\<exists>n sn. chunk_steps h buf n s = Some sn \<and> cursor sn + 2 \<le> length buf \<and>
        buf ! cursor sn = 0xFF \<and> s' = sn\<lparr>cursor := cursor sn + 2\<rparr>"
  proof (rule chunk_loop.raw_induct [where P = "\<lambda>h buf s r. \<forall>s'. r = Inr s' \<longrightarrow>
        (\<exists>n sn. chunk_steps h buf n s = Some sn \<and> cursor sn + 2 \<le> length buf \<and>
           buf ! cursor sn = 0xFF \<and> s' = sn\<lparr>cursor := cursor sn + 2\<rparr>)",
        OF _ run, rule_format], goal_cases)
    case (1 loop h buf s r s')
    note IH = "1"(1) and body = "1"(2) and r = "1"(3)
    from body r have len: "cursor s + 2 \<le> length buf"
      by (auto simp: readUInt8_def split: if_splits)
    show ?case
    proof (cases "buf ! cursor s = 0xFF")
      case True
      with body r len have "s' = s\<lparr>cursor := cursor s + 2\<rparr>"
        by (simp add: readUInt8_def NJD_ENDOFF_def)
      with True len have "chunk_steps h buf 0 s = Some s \<and> cursor s + 2 \<le> length buf \<and>
          buf ! cursor s = 0xFF \<and> s' = s\<lparr>cursor := cursor s + 2\<rparr>"
        by simp
      then show ?thesis by blast
    next
      case False
      with body r len obtain s1 where
        p: "process_chunk h (buf ! cursor s) (buf ! (cursor s + 1)) (s\<lparr>cursor := cursor s + 2\<rparr>) = Inr s1"
        and l: "loop h buf s1 = Some (Inr s')"
        by (auto simp: readUInt8_def NJD_ENDOFF_def split: sum.splits)
      from IH [OF l] obtain n sn where
        st: "chunk_steps h buf n s1 = Some sn" and e: "cursor sn + 2 \<le> length buf"
        "buf ! cursor sn = 0xFF" "s' = sn\<lparr>cursor := cursor sn + 2\<rparr>"
        by blast
      from False len p st have "chunk_steps h buf (Suc n) s = Some sn"
        by (simp add: readUInt8_def NJD_ENDOFF_def)
      with e show ?thesis by blast
    qed
  next
    case 2
    show ?case by simp
  qed
next
  assume "\<exists>n sn. chunk_steps h buf n s = Some sn \<and> cursor sn + 2 \<le> length buf \<and>
        buf ! cursor sn = 0xFF \<and> s' = sn\<lparr>cursor := cursor sn + 2\<rparr>"
  then obtain n sn where st: "chunk_steps h buf n s = Some sn" and len: "cursor sn + 2 \<le> length buf"
    and ff: "buf ! cursor sn = 0xFF" and s': "s' = sn\<lparr>cursor := cursor sn + 2\<rparr>"
    by blast
  from chunk_loop_after_steps [OF st] chunk_loop_end [OF len ff] s'
  show "chunk_loop h buf s = Some (Inr s')" by simp
qed

text \<open>
  C3, as the code has it. For every chunk stream and whatever the chunk readers do, the
  chunk interpreter stops normally exactly when, after some number of chunks that are
  not the end chunk, it reads a head byte equal to \<open>0xFF\<close> with a flag byte behind it;
  and at that point it has consumed the head byte and the flag byte that follows it:
  the cursor is two bytes past the terminating head.
\<close>

theorem readChunk_end_consumes_flag:
  "(readChunk h buf p ext = Some (Inr s')) =
     (\<exists>n sn. chunk_steps h buf n (chunk_init p ext) = Some sn \<and>
        cursor sn + 2 \<le> length buf \<and> buf ! cursor sn = 0xFF \<and>
        s' = sn\<lparr>cursor := cursor sn + 2\<rparr>)"
  unfolding readChunk_def by (rule chunk_loop_returns_iff)

theorem readChunk_end_consumes_flag_witness:
  "chunk_steps idle_handlers [0x08, 0x01, 0xFF, 0x07] (Suc 0) (chunk_init 0 ()) = Some (chunk_init 2 ()) \<and>
   cursor (chunk_init 2 ()) + 2 \<le> length [0x08, 0x01, 0xFF, 0x07 :: u8] \<and>
   [0x08, 0x01, 0xFF, 0x07 :: u8] ! cursor (chunk_init 2 ()) = 0xFF \<and>
   readChunk idle_handlers [0x08, 0x01, 0xFF, 0x07] 0 () = Some (Inr (chunk_init 4 ()))"
proof -
  let ?buf = "[0x08, 0x01, 0xFF, 0x07 :: u8]"
  have st: "chunk_steps idle_handlers ?buf (Suc 0) (chunk_init 0 ()) = Some (chunk_init 2 ())"
    by (simp add: readUInt8_def process_chunk_def idle_handlers_def chunk_init_def
        NJD_ENDOFF_def NJD_STRIPOFF_def NJD_VERTOFF_def NJD_MATOFF_def NJD_TINYOFF_def
        NJD_BITSOFF_def)
  have e: "cursor (chunk_init 2 ()) + 2 \<le> length ?buf" "?buf ! cursor (chunk_init 2 ()) = 0xFF"
    "chunk_init 4 () = (chunk_init 2 ())\<lparr>cursor := cursor (chunk_init 2 ()) + 2\<rparr>"
    by (simp_all add: chunk_init_def)
  from st e have "\<exists>n sn. chunk_steps idle_handlers ?buf n (chunk_init 0 ()) = Some sn \<and>
        cursor sn + 2 \<le> length ?buf \<and> ?buf ! cursor sn = 0xFF \<and>
        chunk_init 4 () = sn\<lparr>cursor := cursor sn + 2\<rparr>"
    by blast
  then have "readChunk idle_handlers ?buf 0 () = Some (Inr (chunk_init 4 ()))"
    by (simp only: readChunk_end_consumes_flag)
  with st e show ?thesis by simp
qed

text \<open>
  C3 as stated fails: on the stream \<open>0xFF, 0x00\<close> the interpreter stops with the cursor
  at 2, not 1, so the flag byte after the terminating head has been read; and on the
  one-byte stream \<open>0xFF\<close> it does not stop normally but fails on the missing flag byte.
\<close>

theorem readChunk_end_counterexample:
  "readChunk idle_handlers [0xFF, 0x00] 0 () = Some (Inr (chunk_init 2 ())) \<and>
   cursor (chunk_init 2 ()) = 2 \<and>
   readChunk idle_handlers [0xFF] 0 () = Some (Inl TruncatedInput)"
  using chunk_loop_end [of "chunk_init 0 ()" "[0xFF, 0x00]" idle_handlers]
    chunk_loop_end_truncated [of "chunk_init 0 ()" "[0xFF]" idle_handlers]
  by (simp add: readChunk_def chunk_init_cursor_update numeral_2_eq_2)

subsection \<open>Texture loading never throws\<close>

lemma try_catch_null: "\<exists>r. try_catch body (\<lambda>err. Inr None) = Inr r"
  by (cases body) (simp_all add: try_catch_def)

text \<open>
  C10. \<open>processTextureEntry\<close> and \<open>processPvrFile\<close> never throw: whatever \<open>parsePvr\<close> and
  the canvas operations do, each returns a value; and when \<open>parsePvr\<close> throws, the value
  returned is \<open>null\<close>.
\<close>

theorem texture_processing_never_throws:
  "(\<exists>r. processTextureEntry env entry texturePath = Inr r) \<and>
   (\<exists>r. processPvrFile env buffer texturePath index = Inr r) \<and>
   (parsePvr env (entry_data entry) = Inl e \<longrightarrow>
      processTextureEntry env entry texturePath = Inr None) \<and>
   (parsePvr env buffer = Inl e \<longrightarrow>
      processPvrFile env buffer texturePath index = Inr None)"
  by (simp add: processTextureEntry_def processPvrFile_def try_catch_null)
     (simp add: try_catch_def js_bind_def)

theorem texture_processing_never_throws_witness:
  "parsePvr failing_browser (entry_data \<lparr>entry_name = ''TEX_1'', entry_data = [1, 2, 3]\<rparr>)
     = Inl (Error ''Invalid PVR'') \<and>
   processTextureEntry failing_browser \<lparr>entry_name = ''TEX_1'', entry_data = [1, 2, 3]\<rparr> ''OBJ/COCK.PVM''
     = Inr None \<and>
   parsePvr failing_browser [1, 2, 3] = Inl (Error ''Invalid PVR'') \<and>
   processPvrFile failing_browser [1, 2, 3] ''OBJ/COCK.PVM'' 0 = Inr None"
proof -
  have p: "parsePvr failing_browser bytes = Inl (Error ''Invalid PVR'')" for bytes
    by (simp add: failing_browser_def)
  from texture_processing_never_throws [of failing_browser
      "\<lparr>entry_name = ''TEX_1'', entry_data = [1, 2, 3]\<rparr>" "''OBJ/COCK.PVM''" "[1, 2, 3]"
      0 "Error ''Invalid PVR''"] p
  show ?thesis by (simp del: pvm_entry.simps)
qed

subsection \<open>The mesh built by \<open>loadModel\<close>\<close>

lemma length_map_materials:
  "map_materials env parsedModel textureMap index ms = Inr mats \<Longrightarrow>
     length mats = length ms"
  by (induction ms arbitrary: index mats) (auto simp: js_bind_def split: sum.splits)

lemma loadModel_mesh:
  assumes run: "loadModel env modelPath textureMap = (anims, Inr mesh)"
  shows "\<exists>response modelBuffer parsedModel g ms mats.
           fetch env (''/iso/'' @ modelPath) = Inr response \<and> ok response \<and>
           arrayBuffer response = Inr modelBuffer \<and>
           parseNinjaModel env modelBuffer = Inr parsedModel \<and>
           geometry parsedModel = Some g \<and> materials parsedModel = Some ms \<and>
           map_materials env parsedModel textureMap 0 ms = Inr mats \<and>
           mesh_materials mesh = (if mats = [] then [MeshNormalMaterial] else mats)"
proof (cases "fetch env (''/iso/'' @ modelPath)")
  case (Inl e)
  with run show ?thesis by (simp add: loadModel_def)
next
  case f: (Inr response)
  show ?thesis
  proof (cases "ok response")
    case False
    with run f show ?thesis by (simp add: loadModel_def)
  next
    case ok: True
    show ?thesis
    proof (cases "arrayBuffer response")
      case (Inl e)
      with run f ok show ?thesis by (simp add: loadModel_def)
    next
      case ab: (Inr modelBuffer)
      show ?thesis
      proof (cases "parseNinjaModel env modelBuffer")
        case (Inl e)
        with run f ok ab show ?thesis by (simp add: loadModel_def)
      next
        case pm: (Inr parsedModel)
        from run f ok ab pm have r: "(case (geometry parsedModel, materials parsedModel) of
            (Some g, Some ms) \<Rightarrow>
               js_bind (map_materials env parsedModel textureMap 0 ms) (\<lambda>materials.
               let materials =
                     (if length materials = 0 then materials @ [MeshNormalMaterial]
                      else materials)
               in Inr \<lparr>mesh_geometry = g, mesh_materials = materials,
                       skeleton_bones = nm_bones parsedModel,
                       rootBone = (case nm_bones parsedModel of [] \<Rightarrow> None | b # _ \<Rightarrow> Some b),
                       skeletonHelper_visible = False\<rparr>)
          | _ \<Rightarrow> Inl (Error ''Model missing geometry or materials'')) = Inr mesh"
          by (simp add: loadModel_def)
        then obtain g ms where g: "geometry parsedModel = Some g" and ms: "materials parsedModel = Some ms"
          by (cases "geometry parsedModel"; cases "materials parsedModel") simp_all
        from r g ms obtain mats where m: "map_materials env parsedModel textureMap 0 ms = Inr mats"
          and mm: "mesh_materials mesh = (if mats = [] then [MeshNormalMaterial] else mats)"
          by (cases "map_materials env parsedModel textureMap 0 ms")
             (auto simp: js_bind_def Let_def split: if_splits)
        from f ok ab pm g ms m mm show ?thesis by blast
      qed
    qed
  qed
qed

lemma loadModel_empty_materials:
  assumes "fetch env (''/iso/'' @ modelPath) = Inr response" and "ok response"
    and "arrayBuffer response = Inr modelBuffer"
    and "parseNinjaModel env modelBuffer = Inr parsedModel"
    and "geometry parsedModel = Some g" and "materials parsedModel = Some []"
  shows "\<exists>anims mesh. loadModel env modelPath textureMap = (anims, Inr mesh) \<and>
           mesh_materials mesh = [MeshNormalMaterial]"
  using assms by (simp add: loadModel_def js_bind_def)

text \<open>
  C9. Every mesh that \<open>loadModel\<close> constructs has at least one material: it has as many
  materials as the parsed model lists, and exactly one, the default material, when the
  parsed model lists none. A model with a geometry and an empty material list that
  loads and parses does get its mesh, with the default material alone.
\<close>

theorem loadModel_materials_nonempty:
  "(loadModel env modelPath textureMap = (anims, Inr mesh) \<longrightarrow> mesh_materials mesh \<noteq> []) \<and>
   (loadModel env modelPath textureMap = (anims, Inr mesh) \<and>
    fetch env (''/iso/'' @ modelPath) = Inr response \<and>
    arrayBuffer response = Inr modelBuffer \<and>
    parseNinjaModel env modelBuffer = Inr parsedModel \<and>
    materials parsedModel = Some ms \<longrightarrow>
      length (mesh_materials mesh) = max 1 (length ms) \<and>
      (ms = [] \<longrightarrow> mesh_materials mesh = [MeshNormalMaterial])) \<and>
   (fetch env (''/iso/'' @ modelPath) = Inr response \<and> ok response \<and>
    arrayBuffer response = Inr modelBuffer \<and>
    parseNinjaModel env modelBuffer = Inr parsedModel \<and>
    geometry parsedModel = Some g \<and> materials parsedModel = Some [] \<longrightarrow>
      (\<exists>anims mesh. loadModel env modelPath textureMap = (anims, Inr mesh) \<and>
         mesh_materials mesh = [MeshNormalMaterial]))"
proof (intro conjI impI; (elim conjE)?)
  assume run: "loadModel env modelPath textureMap = (anims, Inr mesh)"
  from loadModel_mesh [OF run] show "mesh_materials mesh \<noteq> []"
    by (auto split: if_splits)
next
  assume run: "loadModel env modelPath textureMap = (anims, Inr mesh)"
    and f: "fetch env (''/iso/'' @ modelPath) = Inr response"
    and ab: "arrayBuffer response = Inr modelBuffer"
    and pm: "parseNinjaModel env modelBuffer = Inr parsedModel"
    and ms: "materials parsedModel = Some ms"
  from loadModel_mesh [OF run] f ab pm ms obtain mats where
    m: "map_materials env parsedModel textureMap 0 ms = Inr mats"
    and mm: "mesh_materials mesh = (if mats = [] then [MeshNormalMaterial] else mats)"
    by auto
  from length_map_materials [OF m] mm
  show "length (mesh_materials mesh) = max 1 (length ms)"
    by (cases mats) auto
  from length_map_materials [OF m] mm
  show "mesh_materials mesh = [MeshNormalMaterial]" if "ms = []"
    using that by simp
next
  assume "fetch env (''/iso/'' @ modelPath) = Inr response" "ok response"
    "arrayBuffer response = Inr modelBuffer" "parseNinjaModel env modelBuffer = Inr parsedModel"
    "geometry parsedModel = Some g" "materials parsedModel = Some []"
  then show "\<exists>anims mesh. loadModel env modelPath textureMap = (anims, Inr mesh) \<and>
         mesh_materials mesh = [MeshNormalMaterial]"
    by (rule loadModel_empty_materials)
qed

theorem loadModel_materials_nonempty_witness:
  "loadModel empty_model_loader ''OBJ/COCK.NJ'' () =
     (Some [], Inr \<lparr>mesh_geometry = (), mesh_materials = [MeshNormalMaterial],
        skeleton_bones = [()], rootBone = Some (), skeletonHelper_visible = False\<rparr>) \<and>
   fetch empty_model_loader (''/iso/'' @ ''OBJ/COCK.NJ'') =
     Inr \<lparr>ok = True, statusText = ''OK'', arrayBuffer = Inr []\<rparr> \<and>
   parseNinjaModel empty_model_loader [] = Inr empty_model \<and>
   geometry empty_model = Some () \<and> materials empty_model = Some [] \<and>
   mesh_materials \<lparr>mesh_geometry = (), mesh_materials = [MeshNormalMaterial :: unit material],
        skeleton_bones = [()], rootBone = Some (), skeletonHelper_visible = False\<rparr> \<noteq> [] \<and>
   length [MeshNormalMaterial :: unit material] = max 1 (length ([] :: material_opts list))"
proof -
  let ?mesh = "\<lparr>mesh_geometry = (), mesh_materials = [MeshNormalMaterial :: unit material],
        skeleton_bones = [()], rootBone = Some (), skeletonHelper_visible = False\<rparr>"
  let ?resp = "\<lparr>ok = True, statusText = ''OK'', arrayBuffer = Inr []\<rparr>"
  have run: "loadModel empty_model_loader ''OBJ/COCK.NJ'' () = (Some [], Inr ?mesh)"
    by (simp add: loadModel_def empty_model_loader_def empty_model_def js_bind_def)
  have env: "fetch empty_model_loader (''/iso/'' @ ''OBJ/COCK.NJ'') = Inr ?resp"
    "parseNinjaModel empty_model_loader [] = Inr empty_model"
    "geometry empty_model = Some ()" "materials empty_model = Some []"
    by (simp_all add: empty_model_loader_def empty_model_def)
  note t = loadModel_materials_nonempty [of empty_model_loader "''OBJ/COCK.NJ''" "()" "Some []"
      ?mesh ?resp "[]" empty_model "[]" "()"]
  from t run have "mesh_materials ?mesh \<noteq> []" by blast
  moreover from t run env have "length (mesh_materials ?mesh) = max 1 (length ([] :: material_opts list))"
    by simp
  ultimately show ?thesis using run env by simp
qed

end
